theory Spec2Isabelle
  imports Complex_Main
begin

section \<open>Data model of the sculpting engine (src/src/main.js, lines 1-1296)\<close>

text \<open>
  JavaScript numbers and the entries of a Float32Array are modelled as exact reals:
  rounding, infinities and NaN are outside the model. A Float32Array is a list of reals.
  The rendering, audio and haptic collaborators (computeVertexNormals, triggerHaptic,
  playSculptSound, scene.add/remove, material disposal) do not touch the buffers below
  and are left out.
\<close>

datatype material = Clay | Gold | Glass | Chrome | Jelly

datatype shape = Cylinder | Sphere | Cone | Cube | Torus

text \<open>The isJelly field of the MATERIALS table.\<close>

fun isJelly :: "material \<Rightarrow> bool" where
  "isJelly Clay = False"
| "isJelly Gold = False"
| "isJelly Glass = False"
| "isJelly Chrome = False"
| "isJelly Jelly = True"

type_synonym buffer = "real list"

text \<open>The fields of CONFIG that sculpt reads.\<close>

record config =
  sculptStrength :: real
  sculptRadius :: real
  minRadius :: real
  maxRadius :: real

definition CONFIG :: config where
  "CONFIG = \<lparr>sculptStrength = 0.05, sculptRadius = 0.5, minRadius = 0.2, maxRadius = 3.5\<rparr>"

text \<open>
  The two sliders write sculptStrength (min 0.01, max 0.5) and sculptRadius (min 0.1,
  max 2.0); nothing writes minRadius and maxRadius.
\<close>

definition slider_config :: "config \<Rightarrow> bool" where
  "slider_config cfg \<longleftrightarrow>
     0.01 \<le> sculptStrength cfg \<and> sculptStrength cfg \<le> 0.5 \<and>
     0.1 \<le> sculptRadius cfg \<and> sculptRadius cfg \<le> 2.0 \<and>
     minRadius cfg = 0.2 \<and> maxRadius cfg = 3.5"

definition MAX_HISTORY :: nat where
  "MAX_HISTORY = 20"

text \<open>A THREE.Vector3 (the intersection point handed to sculpt).\<close>

datatype vector3 = Vector3 (vx: real) (vy: real) (vz: real)

text \<open>
  The module-level variables. \<open>positions\<close> is
  clayMesh.geometry.attributes.position.array; null is \<open>None\<close>.
\<close>

record state =
  currentMaterial :: material
  currentShape :: shape
  positions :: buffer
  originalPositions :: "buffer option"
  velocities :: "buffer option"
  restPositions :: "buffer option"
  historyStack :: "buffer list"
  isSculpting :: bool

text \<open>
  A JavaScript exception does not roll back the writes made before it: an operation
  that can throw returns its completion together with the state it leaves behind.
\<close>

datatype js_error = TypeError | RangeError

datatype 'a completion = Return 'a | Throw js_error

section \<open>Typed arrays and buffer attributes\<close>

text \<open>
  TypedArray.prototype.set(source): a RangeError when the source is longer than the
  target, otherwise the source overwrites the front of the target.
\<close>

definition ta_set :: "buffer \<Rightarrow> buffer \<Rightarrow> buffer option" where
  "ta_set target source =
     (if length source > length target then None
      else Some (source @ drop (length source) target))"

text \<open>
  BufferAttribute of item size 3: count, getX/getY/getZ, setX/setZ. The count is the
  length of the array divided by 3; the arrays of the geometry factory are made of
  triples, so the division is exact.
\<close>

definition count :: "buffer \<Rightarrow> nat" where
  "count a = length a div 3"

definition getX :: "buffer \<Rightarrow> nat \<Rightarrow> real" where
  "getX a i = a ! (i * 3)"

definition getY :: "buffer \<Rightarrow> nat \<Rightarrow> real" where
  "getY a i = a ! (i * 3 + 1)"

definition getZ :: "buffer \<Rightarrow> nat \<Rightarrow> real" where
  "getZ a i = a ! (i * 3 + 2)"

definition setX :: "buffer \<Rightarrow> nat \<Rightarrow> real \<Rightarrow> buffer" where
  "setX a i v = a[i * 3 := v]"

definition setZ :: "buffer \<Rightarrow> nat \<Rightarrow> real \<Rightarrow> buffer" where
  "setZ a i v = a[i * 3 + 2 := v]"

text \<open>
  Math.atan2 on reals (no signed zeros): the angle of the point (x, y) in
  \<open>(-\<pi>, \<pi>]\<close>, and 0 at the origin.
\<close>

definition atan2 :: "real \<Rightarrow> real \<Rightarrow> real" where
  "atan2 y x =
     (if 0 < x then arctan (y / x)
      else if x < 0 then (if 0 \<le> y then arctan (y / x) + pi else arctan (y / x) - pi)
      else if 0 < y then pi / 2
      else if y < 0 then - (pi / 2)
      else 0)"

section \<open>Geometry, original snapshot and elastic buffers\<close>

text \<open>
  createGeometry builds a THREE geometry; the library is not part of the repository, so
  the vertex array it yields for each shape is a parameter \<open>geom\<close> of the model.
\<close>

definition storeOriginalPositions :: "state \<Rightarrow> state" where
  "storeOriginalPositions s = s\<lparr>originalPositions := Some (positions s)\<rparr>"

definition initJellyPhysics :: "state \<Rightarrow> state" where
  "initJellyPhysics s =
     s\<lparr>velocities := Some (replicate (count (positions s) * 3) 0),
       restPositions := Some (positions s)\<rparr>"

text \<open>The state after the module's top-level code has run.\<close>

definition initial :: "(shape \<Rightarrow> buffer) \<Rightarrow> state" where
  "initial geom =
     storeOriginalPositions
       \<lparr>currentMaterial = Clay, currentShape = Cylinder, positions = geom Cylinder,
        originalPositions = None, velocities = None, restPositions = None,
        historyStack = [], isSculpting = False\<rparr>"

section \<open>Elastic simulator\<close>

definition stiffness :: real where
  "stiffness = 15.0"

definition damping :: real where
  "damping = 0.85"

definition maxVelocity :: real where
  "maxVelocity = 2.0"

text \<open>
  One iteration of the loop of updateJellyPhysics, in its four phases, with
  \<open>i3 = i * 3\<close>; restPositions is only read. The reads are in range whenever the
  three buffers have the length of the vertex buffer (which holds in every reachable
  state where velocities is present); a write out of range is ignored, as
  \<open>list_update\<close> does.
\<close>

definition apply_spring :: "real \<Rightarrow> buffer \<Rightarrow> buffer \<Rightarrow> nat \<Rightarrow> buffer \<Rightarrow> buffer" where
  "apply_spring delta rest p i3 v =
     (let dx = rest ! i3 - p ! i3;
          dy = rest ! (i3 + 1) - p ! (i3 + 1);
          dz = rest ! (i3 + 2) - p ! (i3 + 2);
          v = v[i3 := v ! i3 + dx * stiffness * delta];
          v = v[i3 + 1 := v ! (i3 + 1) + dy * stiffness * delta];
          v = v[i3 + 2 := v ! (i3 + 2) + dz * stiffness * delta]
      in v)"

definition apply_damping :: "nat \<Rightarrow> buffer \<Rightarrow> buffer" where
  "apply_damping i3 v =
     (let v = v[i3 := v ! i3 * damping];
          v = v[i3 + 1 := v ! (i3 + 1) * damping];
          v = v[i3 + 2 := v ! (i3 + 2) * damping]
      in v)"

definition clamp_velocity :: "nat \<Rightarrow> buffer \<Rightarrow> buffer" where
  "clamp_velocity i3 v =
     (let v = v[i3 := max (- maxVelocity) (min maxVelocity (v ! i3))];
          v = v[i3 + 1 := max (- maxVelocity) (min maxVelocity (v ! (i3 + 1)))];
          v = v[i3 + 2 := max (- maxVelocity) (min maxVelocity (v ! (i3 + 2)))]
      in v)"

definition update_position :: "real \<Rightarrow> buffer \<Rightarrow> nat \<Rightarrow> buffer \<Rightarrow> buffer" where
  "update_position delta v i3 p =
     (let p = p[i3 := p ! i3 + v ! i3 * delta];
          p = p[i3 + 1 := p ! (i3 + 1) + v ! (i3 + 1) * delta];
          p = p[i3 + 2 := p ! (i3 + 2) + v ! (i3 + 2) * delta]
      in p)"

definition jelly_vertex :: "real \<Rightarrow> buffer \<Rightarrow> nat \<Rightarrow> buffer \<times> buffer \<Rightarrow> buffer \<times> buffer" where
  "jelly_vertex delta rest i pv =
     (let p = fst pv; v = snd pv;
          i3 = i * 3;
          v = apply_spring delta rest p i3 v;
          v = apply_damping i3 v;
          v = clamp_velocity i3 v;
          p = update_position delta v i3 p
      in (p, v))"

definition updateJellyPhysics :: "real \<Rightarrow> state \<Rightarrow> unit completion \<times> state" where
  "updateJellyPhysics delta s =
     (if \<not> isJelly (currentMaterial s) then (Return (), s)
      else case velocities s of
        None \<Rightarrow> (Return (), s)
      | Some v \<Rightarrow>
          (case restPositions s of
             None \<Rightarrow> (if count (positions s) = 0 then (Return (), s) else (Throw TypeError, s))
           | Some rest \<Rightarrow>
               (let pv = fold (jelly_vertex delta rest) [0..<count (positions s)] (positions s, v)
                in (Return (), s\<lparr>positions := fst pv, velocities := Some (snd pv)\<rparr>))))"

section \<open>History manager\<close>

definition saveToHistory :: "state \<Rightarrow> state" where
  "saveToHistory s =
     (let h = historyStack s @ [positions s]
      in s\<lparr>historyStack := (if length h > MAX_HISTORY then tl h else h)\<rparr>)"

definition undo :: "state \<Rightarrow> bool completion \<times> state" where
  "undo s =
     (if length (historyStack s) = 0 then (Return False, s)
      else
        let previousState = last (historyStack s);
            s1 = s\<lparr>historyStack := butlast (historyStack s)\<rparr>
        in case ta_set (positions s1) previousState of
             None \<Rightarrow> (Throw RangeError, s1)
           | Some p \<Rightarrow>
               (let s2 = s1\<lparr>positions := p\<rparr>
                in case restPositions s2 of
                     None \<Rightarrow> (Return True, s2)
                   | Some r \<Rightarrow>
                       (case ta_set r previousState of
                          None \<Rightarrow> (Throw RangeError, s2)
                        | Some r' \<Rightarrow> (Return True, s2\<lparr>restPositions := Some r'\<rparr>))))"

definition resetShape :: "state \<Rightarrow> unit completion \<times> state" where
  "resetShape s =
     (case originalPositions s of
        None \<Rightarrow> (Return (), s)
      | Some orig \<Rightarrow>
          (case ta_set (positions s) orig of
             None \<Rightarrow> (Throw RangeError, s)
           | Some p \<Rightarrow>
               (let s1 = s\<lparr>positions := p, historyStack := []\<rparr>
                in case restPositions s1 of
                     None \<Rightarrow> (Return (), s1)
                   | Some r \<Rightarrow>
                       (case ta_set r orig of
                          None \<Rightarrow> (Throw RangeError, s1)
                        | Some r' \<Rightarrow>
                            (let s2 = s1\<lparr>restPositions := Some r'\<rparr>
                             in case velocities s2 of
                                  None \<Rightarrow> (Throw TypeError, s2)
                                | Some v \<Rightarrow>
                                    (Return (), s2\<lparr>velocities := Some (replicate (length v) 0)\<rparr>))))))"

section \<open>Shape and material transitions\<close>

definition changeShape :: "(shape \<Rightarrow> buffer) \<Rightarrow> shape \<Rightarrow> state \<Rightarrow> state" where
  "changeShape geom newShape s =
     (if newShape = currentShape s then s
      else
        let s1 = s\<lparr>currentShape := newShape, positions := geom newShape\<rparr>;
            s2 = storeOriginalPositions s1;
            s3 = s2\<lparr>historyStack := []\<rparr>
        in if isJelly (currentMaterial s3) then initJellyPhysics s3 else s3)"

definition changeMaterial :: "material \<Rightarrow> state \<Rightarrow> state" where
  "changeMaterial newMaterial s =
     (if newMaterial = currentMaterial s then s
      else
        let s1 = s\<lparr>currentMaterial := newMaterial\<rparr>
        in if isJelly (currentMaterial s1) then initJellyPhysics s1
           else s1\<lparr>velocities := None\<rparr>)"

section \<open>Deformation engine\<close>

text \<open>
  The body of the loop of sculpt for vertex \<open>i\<close>. A write to restPositions or
  velocities beyond the end of the array is ignored by a typed array, as by
  \<open>list_update\<close>.
\<close>

definition sculpt_vertex :: "config \<Rightarrow> real \<Rightarrow> real \<Rightarrow> nat \<Rightarrow> state \<Rightarrow> state" where
  "sculpt_vertex cfg targetRadius targetY i s =
     (let y = getY (positions s) i;
          dy = \<bar>y - targetY\<bar>
      in if dy < sculptRadius cfg then
           let x = getX (positions s) i;
               z = getZ (positions s) i;
               currentRadius = sqrt (x * x + z * z);
               factor = exp (- (dy * dy) / 0.1);
               speed = sculptStrength cfg;
               newRadius = currentRadius + (targetRadius - currentRadius) * factor * speed;
               angle = atan2 z x;
               s = s\<lparr>positions := setX (positions s) i (cos angle * newRadius)\<rparr>;
               s = s\<lparr>positions := setZ (positions s) i (sin angle * newRadius)\<rparr>;
               s = (case restPositions s of
                      None \<Rightarrow> s
                    | Some r \<Rightarrow>
                        (let i3 = i * 3;
                             r = r[i3 := cos angle * newRadius];
                             r = r[i3 + 2 := sin angle * newRadius];
                             s = s\<lparr>restPositions := Some r\<rparr>
                         in case velocities s of
                              None \<Rightarrow> s
                            | Some v \<Rightarrow>
                                (let impulse = (targetRadius - currentRadius) * factor * 0.5;
                                     v = v[i3 := v ! i3 + cos angle * impulse];
                                     v = v[i3 + 2 := v ! (i3 + 2) + sin angle * impulse]
                                 in s\<lparr>velocities := Some v\<rparr>)))
           in s\<lparr>isSculpting := True\<rparr>
         else s)"

definition sculpt :: "config \<Rightarrow> vector3 \<Rightarrow> state \<Rightarrow> state" where
  "sculpt cfg intersectPoint s =
     (let targetRadius = \<bar>vx intersectPoint\<bar>;
          targetRadius = max (minRadius cfg) (min (maxRadius cfg) targetRadius);
          targetY = vy intersectPoint
      in fold (sculpt_vertex cfg targetRadius targetY) [0..<count (positions s)] s)"

text \<open>
  The mouseup and touchend handlers; \<open>long\<close> says whether more than 100 ms have
  passed since the gesture began.
\<close>

definition pointerUp :: "bool \<Rightarrow> state \<Rightarrow> state" where
  "pointerUp long s =
     (let s = (if isSculpting s \<and> long then saveToHistory s else s)
      in s\<lparr>isSculpting := False\<rparr>)"

section \<open>Reachable states\<close>

text \<open>
  The contract of the geometry factory: a position attribute has item size 3, so the
  array of every shape is a sequence of (x, y, z) triples.
\<close>

definition geometry_ok :: "(shape \<Rightarrow> buffer) \<Rightarrow> bool" where
  "geometry_ok geom \<longleftrightarrow> (\<forall>sh. length (geom sh) mod 3 = 0)"

text \<open>
  The states the page can be in: the initial state, and whatever an event handler or
  a frame of the animation loop makes of a reachable state. The state left behind by
  a handler that threw is reachable too.
\<close>

inductive reachable :: "(shape \<Rightarrow> buffer) \<Rightarrow> state \<Rightarrow> bool" for geom :: "shape \<Rightarrow> buffer" where
  r_initial: "geometry_ok geom \<Longrightarrow> reachable geom (initial geom)"
| r_sculpt: "reachable geom s \<Longrightarrow> slider_config cfg \<Longrightarrow> reachable geom (sculpt cfg pt s)"
| r_pointerUp: "reachable geom s \<Longrightarrow> reachable geom (pointerUp long s)"
| r_undo: "reachable geom s \<Longrightarrow> reachable geom (snd (undo s))"
| r_resetShape: "reachable geom s \<Longrightarrow> reachable geom (snd (resetShape s))"
| r_changeShape: "reachable geom s \<Longrightarrow> reachable geom (changeShape geom sh s)"
| r_changeMaterial: "reachable geom s \<Longrightarrow> reachable geom (changeMaterial m s)"
| r_updateJellyPhysics: "reachable geom s \<Longrightarrow> reachable geom (snd (updateJellyPhysics delta s))"

text \<open>The radius of vertex \<open>i\<close> around the rotation axis, and its angle.\<close>

definition radius_at :: "buffer \<Rightarrow> nat \<Rightarrow> real" where
  "radius_at a i = sqrt (getX a i * getX a i + getZ a i * getZ a i)"

definition angle_at :: "buffer \<Rightarrow> nat \<Rightarrow> real" where
  "angle_at a i = atan2 (getZ a i) (getX a i)"

text \<open>A small geometry for concrete runs: one vertex, and two for the cube.\<close>

fun sample_geometry :: "shape \<Rightarrow> buffer" where
  "sample_geometry Cube = [1, 0, 0, 0, 2, 1]"
| "sample_geometry sh = [1, 0, 0]"

section \<open>Invariant of the reachable states and componentwise specifications\<close>

text \<open>
  What holds of the buffers in every reachable state: the history is bounded and its
  snapshots have the length of the vertex buffer, the original snapshot exists, and
  when velocities is present the material is elastic and both elastic buffers are
  parallel to the vertex buffer.
\<close>

definition state_inv :: "state \<Rightarrow> bool" where
  "state_inv s \<longleftrightarrow>
     length (historyStack s) \<le> MAX_HISTORY \<and>
     (\<exists>orig. originalPositions s = Some orig \<and> length orig = length (positions s)) \<and>
     (\<forall>h \<in> set (historyStack s). length h = length (positions s)) \<and>
     (\<forall>v. velocities s = Some v \<longrightarrow>
        isJelly (currentMaterial s) \<and> length v = count (positions s) * 3 \<and>
        (\<exists>r. restPositions s = Some r \<and> length r = length (positions s)))"

definition same_shape :: "state \<Rightarrow> state \<Rightarrow> bool" where
  "same_shape s s' \<longleftrightarrow>
     currentMaterial s' = currentMaterial s \<and> currentShape s' = currentShape s \<and>
     historyStack s' = historyStack s \<and> originalPositions s' = originalPositions s \<and>
     length (positions s') = length (positions s) \<and>
     map_option length (velocities s') = map_option length (velocities s) \<and>
     map_option length (restPositions s') = map_option length (restPositions s)"

text \<open>What one step makes of component k: new velocity and new position.\<close>

definition step_velocity :: "real \<Rightarrow> real \<Rightarrow> real \<Rightarrow> real \<Rightarrow> real" where
  "step_velocity delta rest0 pos0 vel0 =
     max (- 2.0) (min 2.0 ((vel0 + (rest0 - pos0) * 15.0 * delta) * 0.85))"

definition step_position :: "real \<Rightarrow> real \<Rightarrow> real \<Rightarrow> real \<Rightarrow> real" where
  "step_position delta rest0 pos0 vel0 = pos0 + step_velocity delta rest0 pos0 vel0 * delta"

definition in_vertex :: "nat \<Rightarrow> nat \<Rightarrow> bool" where
  "in_vertex i3 k \<longleftrightarrow> i3 \<le> k \<and> k < i3 + 3"

section \<open>Componentwise specification of sculpt\<close>

text \<open>
  The radius a vertex (x, y, z) is given by one sculpt call, the value sculpt leaves
  in component \<open>k\<close> of the vertex buffer, and the target radius of a call.
\<close>

definition new_radius :: "config \<Rightarrow> real \<Rightarrow> real \<Rightarrow> real \<Rightarrow> real \<Rightarrow> real \<Rightarrow> real" where
  "new_radius cfg targetRadius targetY x y z =
     (let dy = \<bar>y - targetY\<bar>;
          currentRadius = sqrt (x * x + z * z);
          factor = exp (- (dy * dy) / 0.1)
      in currentRadius + (targetRadius - currentRadius) * factor * sculptStrength cfg)"

definition sculpt_component :: "config \<Rightarrow> real \<Rightarrow> real \<Rightarrow> buffer \<Rightarrow> nat \<Rightarrow> real" where
  "sculpt_component cfg targetRadius targetY p k =
     (let i = k div 3; x = getX p i; y = getY p i; z = getZ p i
      in if \<bar>y - targetY\<bar> < sculptRadius cfg then
           (if k mod 3 = 0 then cos (atan2 z x) * new_radius cfg targetRadius targetY x y z
            else if k mod 3 = 2 then sin (atan2 z x) * new_radius cfg targetRadius targetY x y z
            else p ! k)
         else p ! k)"

definition clampRadius :: "config \<Rightarrow> vector3 \<Rightarrow> real" where
  "clampRadius cfg pt = max (minRadius cfg) (min (maxRadius cfg) \<bar>vx pt\<bar>)"

section \<open>Concrete runs\<close>

text \<open>
  Runs on the small geometry. \<open>jelly_rest\<close>: select Jelly.
  \<open>jelly_sculpted\<close>: select Jelly, then one sculpt call at (2, 0, 0). \<open>jelly_gesture\<close>: the same, then the pointer is released after
  more than 100 ms. \<open>stale_cube\<close>: select Jelly, select Clay, select the cube, one
  sculpt call at (1, 0, 0) and the pointer released after more than 100 ms.
\<close>

definition jelly_sculpted :: state where
  "jelly_sculpted = sculpt CONFIG (Vector3 2 0 0) (changeMaterial Jelly (initial sample_geometry))"

definition jelly_gesture :: state where
  "jelly_gesture = pointerUp True jelly_sculpted"

definition jelly_rest :: state where
  "jelly_rest = changeMaterial Jelly (initial sample_geometry)"

text \<open>
  One gesture at (1, 0, 0), released after more than 100 ms, and twenty of them from
  the initial state.
\<close>

definition gesture :: "state \<Rightarrow> state" where
  "gesture s = pointerUp True (sculpt CONFIG (Vector3 1 0 0) s)"

definition full_history :: state where
  "full_history = (gesture ^^ 20) (initial sample_geometry)"

definition stale_cube :: state where
  "stale_cube =
     pointerUp True (sculpt CONFIG (Vector3 1 0 0)
       (changeShape sample_geometry Cube
          (changeMaterial Clay (changeMaterial Jelly (initial sample_geometry)))))"

section \<open>Lemmas: frames, lengths and the invariant\<close>

lemma fold_preserves:
  assumes "\<And>i s. P s \<Longrightarrow> P (f i s)" and "P s"
  shows "P (fold f xs s)"
  using assms(2) by (induction xs arbitrary: s) (simp_all add: assms(1))

lemma sculpt_vertex_same_shape: "same_shape s (sculpt_vertex cfg tr ty i s)"
  by (simp add: sculpt_vertex_def same_shape_def Let_def setX_def setZ_def split: option.splits)

lemma same_shape_trans: "same_shape a b \<Longrightarrow> same_shape b c \<Longrightarrow> same_shape a c"
  by (simp add: same_shape_def)

lemma same_shape_refl: "same_shape a a"
  by (simp add: same_shape_def)

lemma sculpt_same_shape: "same_shape s (sculpt cfg pt s)"
  unfolding sculpt_def Let_def
  by (rule fold_preserves[where P = "same_shape s"]) (auto intro: same_shape_trans sculpt_vertex_same_shape same_shape_refl)

lemma same_shape_inv: "same_shape s s' \<Longrightarrow> state_inv s \<Longrightarrow> state_inv s'"
  unfolding same_shape_def state_inv_def count_def
  apply (cases "velocities s'"; cases "velocities s"; cases "restPositions s'"; cases "restPositions s")
  apply auto
  done

lemma apply_spring_length: "length (apply_spring d r p i3 v) = length v"
  by (simp add: apply_spring_def Let_def)

lemma apply_damping_length: "length (apply_damping i3 v) = length v"
  by (simp add: apply_damping_def Let_def)

lemma clamp_velocity_length: "length (clamp_velocity i3 v) = length v"
  by (simp add: clamp_velocity_def Let_def)

lemma update_position_length: "length (update_position d v i3 p) = length p"
  by (simp add: update_position_def Let_def)

lemma jelly_vertex_length:
  "length (fst (jelly_vertex d r i pv)) = length (fst pv)"
  "length (snd (jelly_vertex d r i pv)) = length (snd pv)"
  by (simp_all add: jelly_vertex_def Let_def apply_spring_length apply_damping_length
        clamp_velocity_length update_position_length)

lemma jelly_fold_length:
  "length (fst (fold (jelly_vertex d r) xs pv)) = length (fst pv) \<and>
   length (snd (fold (jelly_vertex d r) xs pv)) = length (snd pv)"
  by (induction xs arbitrary: pv) (simp_all add: jelly_vertex_length)

lemma inv_initial: "state_inv (initial geom)"
  by (simp add: state_inv_def initial_def storeOriginalPositions_def)

lemma set_tl_subset: "h \<in> set (tl xs) \<Longrightarrow> h \<in> set xs"
  by (cases xs) simp_all

lemma inv_saveToHistory: "state_inv s \<Longrightarrow> state_inv (saveToHistory s)"
  by (auto simp: state_inv_def saveToHistory_def Let_def MAX_HISTORY_def dest!: set_tl_subset)

lemma inv_pointerUp: "state_inv s \<Longrightarrow> state_inv (pointerUp long s)"
  using inv_saveToHistory[of s] by (auto simp: pointerUp_def Let_def state_inv_def)

lemma ta_set_length: "ta_set target source = Some t \<Longrightarrow> length t = length target"
  by (auto simp: ta_set_def split: if_splits)

lemma ta_set_same_length: "length source = length target \<Longrightarrow> ta_set target source = Some source"
  by (simp add: ta_set_def)

lemma undo_frame:
  "historyStack (snd (undo s)) = butlast (historyStack s)"
  "velocities (snd (undo s)) = velocities s"
  "originalPositions (snd (undo s)) = originalPositions s"
  "currentMaterial (snd (undo s)) = currentMaterial s"
  "currentShape (snd (undo s)) = currentShape s"
  by (simp_all add: undo_def Let_def split: option.splits)

lemma undo_lengths:
  "length (positions (snd (undo s))) = length (positions s)"
  "map_option length (restPositions (snd (undo s))) = map_option length (restPositions s)"
  by (auto simp: undo_def Let_def split: option.splits dest: ta_set_length)

lemma resetShape_frame:
  "originalPositions (snd (resetShape s)) = originalPositions s"
  "currentMaterial (snd (resetShape s)) = currentMaterial s"
  "currentShape (snd (resetShape s)) = currentShape s"
  "map_option length (velocities (snd (resetShape s))) = map_option length (velocities s)"
  by (simp_all add: resetShape_def Let_def split: option.splits)

lemma resetShape_lengths:
  "length (positions (snd (resetShape s))) = length (positions s)"
  "map_option length (restPositions (snd (resetShape s))) = map_option length (restPositions s)"
  by (auto simp: resetShape_def Let_def split: option.splits dest: ta_set_length)

lemma resetShape_history:
  "originalPositions s = Some orig \<Longrightarrow> length orig = length (positions s) \<Longrightarrow>
     historyStack (snd (resetShape s)) = []"
  by (simp add: resetShape_def Let_def ta_set_same_length split: option.splits)

lemma state_inv_lengths:
  assumes "state_inv s"
    and "length (historyStack s') \<le> MAX_HISTORY"
    and "set (historyStack s') \<subseteq> set (historyStack s)"
    and "originalPositions s' = originalPositions s"
    and "currentMaterial s' = currentMaterial s"
    and "length (positions s') = length (positions s)"
    and "map_option length (velocities s') = map_option length (velocities s)"
    and "map_option length (restPositions s') = map_option length (restPositions s)"
  shows "state_inv s'"
proof -
  have h: "\<forall>h \<in> set (historyStack s'). length h = length (positions s')"
    using assms(1,3,6) by (auto simp: state_inv_def)
  have o: "\<exists>orig. originalPositions s' = Some orig \<and> length orig = length (positions s')"
    using assms(1,4,6) by (auto simp: state_inv_def)
  have v: "\<forall>v. velocities s' = Some v \<longrightarrow>
        isJelly (currentMaterial s') \<and> length v = count (positions s') * 3 \<and>
        (\<exists>r. restPositions s' = Some r \<and> length r = length (positions s'))"
  proof (intro allI impI)
    fix v assume v: "velocities s' = Some v"
    with assms(7) obtain v0 where v0: "velocities s = Some v0" "length v0 = length v"
      by (cases "velocities s") auto
    with assms(1) obtain r0 where r0: "restPositions s = Some r0" "length r0 = length (positions s)"
      and j: "isJelly (currentMaterial s)" and lv: "length v0 = count (positions s) * 3"
      by (auto simp: state_inv_def)
    from r0 assms(8) obtain r where "restPositions s' = Some r" "length r = length r0"
      by (cases "restPositions s'") auto
    with r0 j lv v0 assms(5,6)
    show "isJelly (currentMaterial s') \<and> length v = count (positions s') * 3 \<and>
        (\<exists>r. restPositions s' = Some r \<and> length r = length (positions s'))"
      by (simp add: count_def)
  qed
  show ?thesis
    unfolding state_inv_def using assms(2) h o v by blast
qed

lemma inv_undo: "state_inv s \<Longrightarrow> state_inv (snd (undo s))"
  by (rule state_inv_lengths[of s])
     (auto simp: undo_frame undo_lengths state_inv_def dest: in_set_butlastD)

lemma inv_resetShape:
  assumes "state_inv s"
  shows "state_inv (snd (resetShape s))"
proof -
  from assms obtain orig where "originalPositions s = Some orig" "length orig = length (positions s)"
    by (auto simp: state_inv_def)
  then have "historyStack (snd (resetShape s)) = []"
    by (rule resetShape_history)
  then show ?thesis
    by (intro state_inv_lengths[OF assms]) (simp_all add: resetShape_frame resetShape_lengths)
qed

lemma inv_changeShape: "state_inv s \<Longrightarrow> state_inv (changeShape geom sh s)"
  by (auto simp: state_inv_def changeShape_def Let_def storeOriginalPositions_def initJellyPhysics_def count_def)

lemma inv_changeMaterial: "state_inv s \<Longrightarrow> state_inv (changeMaterial m s)"
  by (auto simp: state_inv_def changeMaterial_def Let_def initJellyPhysics_def count_def)

lemma inv_updateJellyPhysics:
  assumes "state_inv s"
  shows "state_inv (snd (updateJellyPhysics d s))"
proof (cases "isJelly (currentMaterial s)")
  case False
  with assms show ?thesis by (simp add: updateJellyPhysics_def)
next
  case True
  show ?thesis
  proof (cases "velocities s")
    case None
    with assms show ?thesis by (simp add: updateJellyPhysics_def)
  next
    case (Some v)
    with assms obtain r where r: "restPositions s = Some r" "length r = length (positions s)"
      and v: "length v = count (positions s) * 3"
      by (auto simp: state_inv_def)
    let ?pv = "fold (jelly_vertex d r) [0..<count (positions s)] (positions s, v)"
    have eq: "snd (updateJellyPhysics d s) = s\<lparr>positions := fst ?pv, velocities := Some (snd ?pv)\<rparr>"
      using True Some r by (simp add: updateJellyPhysics_def Let_def)
    have len: "length (fst ?pv) = length (positions s)" "length (snd ?pv) = length v"
      using jelly_fold_length[of d r "[0..<count (positions s)]" "(positions s, v)"] by simp_all
    show ?thesis
      unfolding eq using assms True r v len by (simp add: state_inv_def count_def)
  qed
qed

lemma reachable_inv: "reachable geom s \<Longrightarrow> state_inv s"
  by (induction rule: reachable.induct)
     (auto intro: inv_initial inv_pointerUp inv_undo inv_resetShape inv_changeShape
        inv_changeMaterial inv_updateJellyPhysics same_shape_inv[OF sculpt_same_shape])

lemma updateJellyPhysics_frame:
  "originalPositions (snd (updateJellyPhysics d s)) = originalPositions s"
  "currentShape (snd (updateJellyPhysics d s)) = currentShape s"
  by (simp_all add: updateJellyPhysics_def Let_def split: option.splits)

lemma reachable_original:
  "reachable geom s \<Longrightarrow> originalPositions s = Some (geom (currentShape s))"
proof (induction rule: reachable.induct)
  case r_initial
  show ?case by (simp add: initial_def storeOriginalPositions_def)
next
  case (r_sculpt s cfg pt)
  then show ?case using sculpt_same_shape[of s cfg pt] by (simp add: same_shape_def)
next
  case (r_pointerUp s long)
  then show ?case by (simp add: pointerUp_def saveToHistory_def Let_def)
next
  case (r_undo s)
  then show ?case by (simp add: undo_frame)
next
  case (r_resetShape s)
  then show ?case by (simp add: resetShape_frame)
next
  case (r_changeShape s sh)
  then show ?case
    by (simp add: changeShape_def storeOriginalPositions_def initJellyPhysics_def Let_def)
next
  case (r_changeMaterial s m)
  then show ?case by (simp add: changeMaterial_def initJellyPhysics_def Let_def)
next
  case (r_updateJellyPhysics s delta)
  then show ?case by (simp add: updateJellyPhysics_frame)
qed

lemma reachable_geometry_ok: "reachable geom s \<Longrightarrow> geometry_ok geom"
  by (induction rule: reachable.induct)

lemma pointerUp_positions: "positions (pointerUp long s) = positions s"
  by (simp add: pointerUp_def saveToHistory_def Let_def)

lemma changeMaterial_positions: "positions (changeMaterial m s) = positions s"
  by (simp add: changeMaterial_def initJellyPhysics_def Let_def)

lemma updateJellyPhysics_length:
  "length (positions (snd (updateJellyPhysics d s))) = length (positions s)"
  by (simp add: updateJellyPhysics_def Let_def jelly_fold_length split: option.splits)

lemma reachable_triples: "reachable geom s \<Longrightarrow> length (positions s) mod 3 = 0"
proof (induction rule: reachable.induct)
  case r_initial
  then show ?case by (simp add: geometry_ok_def initial_def storeOriginalPositions_def)
next
  case (r_sculpt s cfg pt)
  then show ?case using sculpt_same_shape[of s cfg pt] by (simp add: same_shape_def)
next
  case (r_pointerUp s long)
  then show ?case by (simp add: pointerUp_positions)
next
  case (r_undo s)
  then show ?case by (simp add: undo_lengths)
next
  case (r_resetShape s)
  then show ?case by (simp add: resetShape_lengths)
next
  case (r_changeShape s sh)
  from r_changeShape.hyps have "geometry_ok geom" by (rule reachable_geometry_ok)
  with r_changeShape.IH show ?case
    by (simp add: geometry_ok_def changeShape_def storeOriginalPositions_def
          initJellyPhysics_def Let_def)
next
  case (r_changeMaterial s m)
  then show ?case by (simp add: changeMaterial_positions)
next
  case (r_updateJellyPhysics s delta)
  then show ?case by (simp add: updateJellyPhysics_length)
qed

lemma reachable_parallel:
  assumes "reachable geom s" and "velocities s = Some v"
  shows "length v = length (positions s) \<and>
         (\<exists>r. restPositions s = Some r \<and> length r = length (positions s))"
proof -
  have "state_inv s" using assms(1) by (rule reachable_inv)
  with assms(2) have v: "length v = count (positions s) * 3"
    and r: "\<exists>r. restPositions s = Some r \<and> length r = length (positions s)"
    by (auto simp: state_inv_def)
  have "length (positions s) mod 3 = 0" using assms(1) by (rule reachable_triples)
  then have "count (positions s) * 3 = length (positions s)"
    unfolding count_def by presburger
  with v r show ?thesis by simp
qed

lemma in_vertex_cases: "in_vertex i3 k \<longleftrightarrow> k = i3 \<or> k = i3 + 1 \<or> k = i3 + 2"
  by (auto simp: in_vertex_def)

lemma apply_spring_nth:
  "k < length v \<Longrightarrow> apply_spring d r p i3 v ! k =
     (if in_vertex i3 k then v ! k + (r ! k - p ! k) * stiffness * d else v ! k)"
  by (auto simp: apply_spring_def Let_def in_vertex_cases nth_list_update)

lemma apply_damping_nth:
  "k < length v \<Longrightarrow> apply_damping i3 v ! k = (if in_vertex i3 k then v ! k * damping else v ! k)"
  by (auto simp: apply_damping_def Let_def in_vertex_cases nth_list_update)

lemma clamp_velocity_nth:
  "k < length v \<Longrightarrow> clamp_velocity i3 v ! k =
     (if in_vertex i3 k then max (- maxVelocity) (min maxVelocity (v ! k)) else v ! k)"
  by (auto simp: clamp_velocity_def Let_def in_vertex_cases nth_list_update)

lemma update_position_nth:
  "k < length p \<Longrightarrow> update_position d v i3 p ! k =
     (if in_vertex i3 k then p ! k + v ! k * d else p ! k)"
  by (auto simp: update_position_def Let_def in_vertex_cases nth_list_update)

section \<open>Evaluating the concrete runs\<close>

lemma replicate_3: "replicate 3 x = [x, x, x]"
  by (simp add: numeral_3_eq_3)

lemmas run_defs = initial_def storeOriginalPositions_def initJellyPhysics_def changeMaterial_def
  changeShape_def sculpt_def sculpt_vertex_def pointerUp_def saveToHistory_def CONFIG_def
  count_def getX_def getY_def getZ_def setX_def setZ_def atan2_def Let_def MAX_HISTORY_def
  upt_rec[of 0] upt_rec[of "Suc 0"] replicate_3

lemma geometry_ok_sample: "geometry_ok sample_geometry"
  unfolding geometry_ok_def
proof
  fix sh show "length (sample_geometry sh) mod 3 = 0"
    by (cases sh) simp_all
qed

lemma slider_config_CONFIG: "slider_config CONFIG"
  by (simp add: slider_config_def CONFIG_def)

lemma jelly_sculpted_eq:
  "jelly_sculpted =
     \<lparr>currentMaterial = Jelly, currentShape = Cylinder, positions = [1.05, 0, 0],
      originalPositions = Some [1, 0, 0], velocities = Some [0.5, 0, 0],
      restPositions = Some [1.05, 0, 0], historyStack = [], isSculpting = True\<rparr>"
  unfolding jelly_sculpted_def by (simp add: run_defs)

lemma jelly_gesture_eq:
  "jelly_gesture =
     \<lparr>currentMaterial = Jelly, currentShape = Cylinder, positions = [1.05, 0, 0],
      originalPositions = Some [1, 0, 0], velocities = Some [0.5, 0, 0],
      restPositions = Some [1.05, 0, 0], historyStack = [[1.05, 0, 0]], isSculpting = False\<rparr>"
  unfolding jelly_gesture_def jelly_sculpted_eq by (simp add: pointerUp_def saveToHistory_def MAX_HISTORY_def)

lemma stale_cube_eq:
  "stale_cube =
     \<lparr>currentMaterial = Clay, currentShape = Cube, positions = [1, 0, 0, 0, 2, 1],
      originalPositions = Some [1, 0, 0, 0, 2, 1], velocities = None,
      restPositions = Some [1, 0, 0], historyStack = [[1, 0, 0, 0, 2, 1]],
      isSculpting = False\<rparr>"
  unfolding stale_cube_def by (simp add: run_defs)

lemma reachable_jelly_sculpted: "reachable sample_geometry jelly_sculpted"
  unfolding jelly_sculpted_def
  by (intro reachable.intros slider_config_CONFIG geometry_ok_sample)

lemma reachable_jelly_gesture: "reachable sample_geometry jelly_gesture"
  unfolding jelly_gesture_def
  by (intro reachable.intros reachable_jelly_sculpted)

lemma reachable_stale_cube: "reachable sample_geometry stale_cube"
  unfolding stale_cube_def
  by (intro reachable.intros slider_config_CONFIG geometry_ok_sample)

lemma gesture_sample:
  assumes "positions s = [1, 0, 0]" "restPositions s = None" "length (historyStack s) < 20"
  shows "gesture s = s\<lparr>historyStack := historyStack s @ [[1, 0, 0]], isSculpting := False\<rparr>"
  using assms by (simp add: gesture_def run_defs)

lemma gesture_funpow:
  "n \<le> 20 \<Longrightarrow> (gesture ^^ n) (initial sample_geometry) =
     (initial sample_geometry)\<lparr>historyStack := replicate n [1, 0, 0]\<rparr>"
proof (induction n)
  case 0
  show ?case by (simp add: initial_def storeOriginalPositions_def)
next
  case (Suc n)
  then have IH: "(gesture ^^ n) (initial sample_geometry) =
     (initial sample_geometry)\<lparr>historyStack := replicate n [1, 0, 0]\<rparr>" by simp
  have "gesture ((initial sample_geometry)\<lparr>historyStack := replicate n [1, 0, 0]\<rparr>) =
     (initial sample_geometry)\<lparr>historyStack := replicate n [1, 0, 0] @ [[1, 0, 0]]\<rparr>"
    using Suc.prems
    by (subst gesture_sample) (simp_all add: initial_def storeOriginalPositions_def)
  then show ?case
    by (simp add: IH replicate_append_same)
qed

lemma full_history_eq:
  "full_history = (initial sample_geometry)\<lparr>historyStack := replicate 20 [1, 0, 0]\<rparr>"
  unfolding full_history_def by (rule gesture_funpow) simp

lemma reachable_gesture: "reachable sample_geometry s \<Longrightarrow> reachable sample_geometry (gesture s)"
  unfolding gesture_def by (intro reachable.intros slider_config_CONFIG)

lemma reachable_full_history: "reachable sample_geometry full_history"
proof -
  have "reachable sample_geometry ((gesture ^^ n) (initial sample_geometry))" for n
    by (induction n) (simp_all add: r_initial geometry_ok_sample reachable_gesture)
  then show ?thesis unfolding full_history_def .
qed

section \<open>History manager: the claims\<close>

lemma saveToHistory_history:
  "length (historyStack s) \<le> 20 \<Longrightarrow>
   historyStack (saveToHistory s) =
     (if length (historyStack s) < 20 then historyStack s @ [positions s]
      else tl (historyStack s) @ [positions s])"
  by (cases "historyStack s") (auto simp: saveToHistory_def Let_def MAX_HISTORY_def)

text \<open>
  Claim C4. In every reachable state the history stack holds at most 20 snapshots.
  saveToHistory appends a copy of the current vertex buffer as the most recent entry;
  when the stack already holds 20, exactly the oldest entry is dropped and the others
  keep their order. The vertex buffer itself is not changed.
\<close>

theorem history_bounded:
  assumes "reachable geom s"
  shows "length (historyStack s) \<le> 20 \<and>
         length (historyStack (saveToHistory s)) \<le> 20 \<and>
         historyStack (saveToHistory s) =
           (if length (historyStack s) < 20 then historyStack s @ [positions s]
            else tl (historyStack s) @ [positions s]) \<and>
         positions (saveToHistory s) = positions s"
proof -
  have inv: "state_inv s" using assms by (rule reachable_inv)
  then have len: "length (historyStack s) \<le> 20"
    by (simp add: state_inv_def MAX_HISTORY_def)
  have "state_inv (saveToHistory s)" using inv by (rule inv_saveToHistory)
  then have len': "length (historyStack (saveToHistory s)) \<le> 20"
    by (simp add: state_inv_def MAX_HISTORY_def)
  have pos: "positions (saveToHistory s) = positions s"
    by (simp add: saveToHistory_def Let_def)
  show ?thesis using len len' pos saveToHistory_history[OF len] by simp
qed

theorem history_bounded_witness:
  "length (historyStack full_history) = 20 \<and>
   historyStack (saveToHistory full_history) = replicate 19 [1, 0, 0] @ [[1, 0, 0]] \<and>
   historyStack (saveToHistory jelly_gesture) = [[1.05, 0, 0], [1.05, 0, 0]]"
proof -
  have tl20: "tl (replicate 20 [1, 0, 0 :: real]) = replicate 19 [1, 0, 0]"
    by (simp add: tl_replicate)
  show ?thesis
    using history_bounded[OF reachable_full_history] history_bounded[OF reachable_jelly_gesture]
    by (simp add: full_history_eq jelly_gesture_eq tl20 initial_def storeOriginalPositions_def)
qed

text \<open>
  Claim C8. In every reachable state the original snapshot is the buffer the geometry
  factory made for the current shape; resetShape writes it into the vertex buffer (the
  snapshot itself stays as it is) and empties the history; when the
  elastic state exists (velocities is present, and then so is restPositions),
  resetShape returns normally, restPositions becomes the original snapshot and every
  velocity component becomes zero.
\<close>

theorem resetShape_restores:
  assumes "reachable geom s"
  shows "originalPositions s = Some (geom (currentShape s)) \<and>
         positions (snd (resetShape s)) = geom (currentShape s) \<and>
         originalPositions (snd (resetShape s)) = originalPositions s \<and>
         historyStack (snd (resetShape s)) = [] \<and>
         (restPositions s = None \<longrightarrow> fst (resetShape s) = Return ()) \<and>
         (\<forall>v. velocities s = Some v \<longrightarrow>
            fst (resetShape s) = Return () \<and>
            restPositions (snd (resetShape s)) = Some (geom (currentShape s)) \<and>
            velocities (snd (resetShape s)) = Some (replicate (length v) 0))"
proof -
  let ?orig = "geom (currentShape s)"
  have inv: "state_inv s" using assms by (rule reachable_inv)
  have orig: "originalPositions s = Some ?orig" using assms by (rule reachable_original)
  with inv have len: "length ?orig = length (positions s)"
    by (auto simp: state_inv_def)
  have set_p: "ta_set (positions s) ?orig = Some ?orig"
    using len by (rule ta_set_same_length)
  have p: "positions (snd (resetShape s)) = ?orig"
    using orig set_p by (simp add: resetShape_def Let_def split: option.splits)
  have h: "historyStack (snd (resetShape s)) = []"
    using orig len by (rule resetShape_history)
  have n: "restPositions s = None \<longrightarrow> fst (resetShape s) = Return ()"
    using orig set_p by (simp add: resetShape_def Let_def)
  have e: "fst (resetShape s) = Return () \<and>
           restPositions (snd (resetShape s)) = Some ?orig \<and>
           velocities (snd (resetShape s)) = Some (replicate (length v) 0)"
    if v: "velocities s = Some v" for v
  proof -
    from inv v obtain r where r: "restPositions s = Some r" "length r = length (positions s)"
      by (auto simp: state_inv_def)
    have set_r: "ta_set r ?orig = Some ?orig"
      using len r(2) by (simp add: ta_set_same_length)
    show ?thesis
      using orig set_p r(1) set_r v by (simp add: resetShape_def Let_def)
  qed
  show ?thesis
    using orig p h n e by (simp add: resetShape_frame)
qed

theorem resetShape_restores_witness:
  "positions jelly_sculpted = [1.05, 0, 0] \<and>
   velocities jelly_sculpted = Some [0.5, 0, 0] \<and>
   fst (resetShape jelly_sculpted) = Return () \<and>
   positions (snd (resetShape jelly_sculpted)) = [1, 0, 0] \<and>
   historyStack (snd (resetShape jelly_sculpted)) = [] \<and>
   restPositions (snd (resetShape jelly_sculpted)) = Some [1, 0, 0] \<and>
   velocities (snd (resetShape jelly_sculpted)) = Some [0, 0, 0]"
  using resetShape_restores[OF reachable_jelly_sculpted]
  by (simp add: jelly_sculpted_eq replicate_3)

text \<open>
  Claim C10. In every reachable state with elastic buffers and a non-empty history,
  undo returns true, pops the most recent snapshot, writes it into the vertex buffer
  and into restPositions, and leaves the velocity buffer exactly as it was.
\<close>

theorem undo_keeps_velocities:
  assumes "reachable geom s" and "velocities s = Some v" and "historyStack s \<noteq> []"
  shows "fst (undo s) = Return True \<and>
         velocities (snd (undo s)) = Some v \<and>
         positions (snd (undo s)) = last (historyStack s) \<and>
         restPositions (snd (undo s)) = Some (last (historyStack s)) \<and>
         historyStack (snd (undo s)) = butlast (historyStack s)"
proof -
  have inv: "state_inv s" using assms(1) by (rule reachable_inv)
  with assms(2) obtain r where r: "restPositions s = Some r" "length r = length (positions s)"
    by (auto simp: state_inv_def)
  have "last (historyStack s) \<in> set (historyStack s)"
    using assms(3) by simp
  with inv have len: "length (last (historyStack s)) = length (positions s)"
    by (simp add: state_inv_def)
  have set_p: "ta_set (positions s) (last (historyStack s)) = Some (last (historyStack s))"
    using len by (rule ta_set_same_length)
  have set_r: "ta_set r (last (historyStack s)) = Some (last (historyStack s))"
    using len r(2) by (simp add: ta_set_same_length)
  show ?thesis
    using assms(2,3) r(1) set_p set_r by (simp add: undo_def Let_def)
qed

theorem undo_keeps_velocities_witness:
  "fst (undo jelly_gesture) = Return True \<and>
   velocities (snd (undo jelly_gesture)) = Some [0.5, 0, 0] \<and>
   positions (snd (undo jelly_gesture)) = [1.05, 0, 0] \<and>
   historyStack (snd (undo jelly_gesture)) = []"
  using undo_keeps_velocities[OF reachable_jelly_gesture, of "[0.5, 0, 0]"]
  by (simp add: jelly_gesture_eq)

text \<open>
  What undo does where the buffers are parallel: nothing on an empty history, and on a
  non-empty one the snapshot is popped and written into the vertex buffer and, when
  present, into restPositions.
\<close>

lemma undo_empty: "historyStack s = [] \<Longrightarrow> undo s = (Return False, s)"
  by (simp add: undo_def)

lemma undo_parallel:
  assumes "historyStack s \<noteq> []"
    and "length (last (historyStack s)) = length (positions s)"
    and "\<forall>r. restPositions s = Some r \<longrightarrow> length r = length (positions s)"
  shows "undo s =
           (Return True,
            s\<lparr>historyStack := butlast (historyStack s), positions := last (historyStack s),
              restPositions := map_option (\<lambda>r. last (historyStack s)) (restPositions s)\<rparr>)"
  using assms
  by (cases "restPositions s") (simp_all add: undo_def Let_def ta_set_same_length)

text \<open>
  Claim C5. The claim holds where restPositions is parallel to the vertex buffer
  (\<open>undo_empty\<close>, \<open>undo_parallel\<close>), but not in every reachable state:
  in \<open>stale_cube\<close> the history is not empty, restPositions is present and shorter
  than the snapshot, and undo throws a RangeError instead of returning true; the
  snapshot has been popped and restPositions is not overwritten.
\<close>

theorem undo_stale_throws:
  "historyStack stale_cube = [[1, 0, 0, 0, 2, 1]] \<and>
   restPositions stale_cube = Some [1, 0, 0] \<and>
   fst (undo stale_cube) = Throw RangeError \<and>
   historyStack (snd (undo stale_cube)) = [] \<and>
   restPositions (snd (undo stale_cube)) = Some [1, 0, 0]"
  by (simp add: stale_cube_eq undo_def ta_set_def Let_def)

section \<open>Transitions: the claims\<close>

text \<open>
  Claim C6. Not every operation returns normally in every reachable state: after
  selecting Jelly and then Clay, resetShape throws a TypeError, because velocities is
  null while restPositions is still present.
\<close>

theorem resetShape_throws:
  "fst (resetShape (changeMaterial Clay (changeMaterial Jelly (initial geom)))) = Throw TypeError"
  by (simp add: resetShape_def changeMaterial_def initJellyPhysics_def initial_def
        storeOriginalPositions_def ta_set_def Let_def)

text \<open>
  Claim C7. Selecting a non-elastic material discards velocities only: after Jelly and
  then Clay, restPositions is still the buffer of the cylinder, and after a change to
  the cube it is still that buffer while the vertex buffer is the cube's.
\<close>

theorem changeMaterial_keeps_restPositions:
  "velocities (changeMaterial Clay (changeMaterial Jelly (initial geom))) = None \<and>
   restPositions (changeMaterial Clay (changeMaterial Jelly (initial geom))) = Some (geom Cylinder) \<and>
   positions (changeShape geom Cube (changeMaterial Clay (changeMaterial Jelly (initial geom)))) = geom Cube \<and>
   restPositions (changeShape geom Cube (changeMaterial Clay (changeMaterial Jelly (initial geom)))) = Some (geom Cylinder)"
  by (simp add: changeShape_def changeMaterial_def initJellyPhysics_def initial_def
        storeOriginalPositions_def Let_def)

section \<open>Elastic simulator: the claim\<close>

lemma jelly_vertex_snd_nth:
  assumes "k < length (snd pv)"
  shows "snd (jelly_vertex d r i pv) ! k =
           (if in_vertex (i * 3) k then step_velocity d (r ! k) (fst pv ! k) (snd pv ! k)
            else snd pv ! k)"
  using assms
  by (simp add: jelly_vertex_def Let_def apply_spring_length apply_damping_length
        apply_spring_nth apply_damping_nth clamp_velocity_nth
        step_velocity_def stiffness_def damping_def maxVelocity_def)

lemma jelly_vertex_fst_nth:
  assumes "k < length (fst pv)" and "in_vertex (i * 3) k \<Longrightarrow> k < length (snd pv)"
  shows "fst (jelly_vertex d r i pv) ! k =
           (if in_vertex (i * 3) k then step_position d (r ! k) (fst pv ! k) (snd pv ! k)
            else fst pv ! k)"
proof (cases "in_vertex (i * 3) k")
  case True
  then have "k < length (snd pv)" by (rule assms(2))
  then show ?thesis
    using assms(1) True
    by (simp add: jelly_vertex_def Let_def apply_spring_length apply_damping_length
        apply_spring_nth apply_damping_nth clamp_velocity_nth update_position_nth
        step_velocity_def step_position_def stiffness_def damping_def maxVelocity_def)
next
  case False
  then show ?thesis
    using assms(1) by (simp add: jelly_vertex_def Let_def update_position_nth)
qed

lemma jelly_fold_both_nth:
  assumes "n * 3 \<le> length v" and "n * 3 \<le> length p"
  shows "(k < length v \<longrightarrow>
            snd (fold (jelly_vertex d r) [0..<n] (p, v)) ! k =
              (if k < n * 3 then step_velocity d (r ! k) (p ! k) (v ! k) else v ! k)) \<and>
         (k < length p \<longrightarrow>
            fst (fold (jelly_vertex d r) [0..<n] (p, v)) ! k =
              (if k < n * 3 then step_position d (r ! k) (p ! k) (v ! k) else p ! k))"
  using assms
proof (induction n)
  case 0
  show ?case by simp
next
  case (Suc n)
  let ?pv = "fold (jelly_vertex d r) [0..<n] (p, v)"
  have IH: "k < length v \<longrightarrow> snd ?pv ! k = (if k < n * 3 then step_velocity d (r ! k) (p ! k) (v ! k) else v ! k)"
    "k < length p \<longrightarrow> fst ?pv ! k = (if k < n * 3 then step_position d (r ! k) (p ! k) (v ! k) else p ! k)"
    using Suc by simp_all
  have len: "length (snd ?pv) = length v" "length (fst ?pv) = length p"
    using jelly_fold_length[of d r "[0..<n]" "(p, v)"] by simp_all
  have step: "fold (jelly_vertex d r) [0..<Suc n] (p, v) = jelly_vertex d r n ?pv"
    by simp
  have disj: "in_vertex (n * 3) k \<Longrightarrow> \<not> k < n * 3"
    "k < Suc n * 3 \<longleftrightarrow> k < n * 3 \<or> in_vertex (n * 3) k"
    by (auto simp: in_vertex_def)
  have inv: "in_vertex (n * 3) k \<Longrightarrow> k < length v" "in_vertex (n * 3) k \<Longrightarrow> k < length p"
    using Suc.prems by (simp_all add: in_vertex_def)
  have a: "snd (jelly_vertex d r n ?pv) ! k =
       (if k < Suc n * 3 then step_velocity d (r ! k) (p ! k) (v ! k) else v ! k)"
    if "k < length v"
    using that IH disj inv by (auto simp: jelly_vertex_snd_nth len)
  have b: "fst (jelly_vertex d r n ?pv) ! k =
       (if k < Suc n * 3 then step_position d (r ! k) (p ! k) (v ! k) else p ! k)"
    if k: "k < length p"
  proof -
    have "fst (jelly_vertex d r n ?pv) ! k =
           (if in_vertex (n * 3) k then step_position d (r ! k) (fst ?pv ! k) (snd ?pv ! k)
            else fst ?pv ! k)"
      by (rule jelly_vertex_fst_nth) (simp_all add: len k inv)
    then show ?thesis
      using IH k inv disj by auto
  qed
  show ?case unfolding step using a b by blast
qed

lemma updateJellyPhysics_elastic:
  assumes "isJelly (currentMaterial s)" "velocities s = Some v" "restPositions s = Some r"
  shows "updateJellyPhysics delta s =
           (Return (),
            s\<lparr>positions := fst (fold (jelly_vertex delta r) [0..<count (positions s)] (positions s, v)),
              velocities := Some (snd (fold (jelly_vertex delta r) [0..<count (positions s)] (positions s, v)))\<rparr>)"
  using assms by (simp add: updateJellyPhysics_def Let_def)

lemma step_at_rest: "step_velocity delta x x 0 = 0" "step_position delta x x 0 = x"
  by (simp_all add: step_velocity_def step_position_def)

lemma jelly_fold_at_rest:
  assumes "n * 3 \<le> length v" "\<forall>k < length v. v ! k = 0" "n * 3 \<le> length p"
  shows "fold (jelly_vertex delta p) [0..<n] (p, v) = (p, v)"
proof -
  let ?pv = "fold (jelly_vertex delta p) [0..<n] (p, v)"
  have len: "length (fst ?pv) = length p" "length (snd ?pv) = length v"
    using jelly_fold_length[of delta p "[0..<n]" "(p, v)"] by simp_all
  have "fst ?pv = p"
  proof (rule nth_equalityI)
    show "length (fst ?pv) = length p" by (rule len)
  next
    fix k assume "k < length (fst ?pv)"
    then have k: "k < length p" using len by simp
    have "k < n * 3 \<Longrightarrow> v ! k = 0" using assms by simp
    then show "fst ?pv ! k = p ! k"
      using jelly_fold_both_nth[OF assms(1,3), of k delta p] k by (simp add: step_at_rest)
  qed
  moreover have "snd ?pv = v"
  proof (rule nth_equalityI)
    show "length (snd ?pv) = length v" by (rule len)
  next
    fix k assume "k < length (snd ?pv)"
    then have k: "k < length v" using len by simp
    then have "v ! k = 0" using assms(2) by simp
    then show "snd ?pv ! k = v ! k"
      using jelly_fold_both_nth[OF assms(1,3), of k delta p] k by (simp add: step_at_rest)
  qed
  ultimately show ?thesis by (simp add: prod_eq_iff)
qed

lemma updateJellyPhysics_at_rest:
  assumes "isJelly (currentMaterial s)" "velocities s = Some v" "restPositions s = Some (positions s)"
    and "count (positions s) * 3 \<le> length v" "\<forall>k < length v. v ! k = 0"
  shows "updateJellyPhysics delta s = (Return (), s)"
proof -
  have "count (positions s) * 3 \<le> length (positions s)"
    by (simp add: count_def)
  with assms(4,5)
  have "fold (jelly_vertex delta (positions s)) [0..<count (positions s)] (positions s, v) = (positions s, v)"
    by (rule jelly_fold_at_rest)
  then show ?thesis
    using assms(2) by (simp add: updateJellyPhysics_elastic[OF assms(1-3)])
qed

lemma funpow_fixed: "f x = x \<Longrightarrow> (f ^^ n) x = x"
  by (induction n) simp_all

lemma jelly_rest_eq:
  "jelly_rest =
     \<lparr>currentMaterial = Jelly, currentShape = Cylinder, positions = [1, 0, 0],
      originalPositions = Some [1, 0, 0], velocities = Some [0, 0, 0],
      restPositions = Some [1, 0, 0], historyStack = [], isSculpting = False\<rparr>"
  unfolding jelly_rest_def by (simp add: run_defs)

lemma reachable_jelly_rest: "reachable sample_geometry jelly_rest"
  unfolding jelly_rest_def by (intro reachable.intros geometry_ok_sample)

text \<open>
  Claim C3. In every reachable elastic state (material elastic, velocities and
  restPositions present; both are then parallel to the vertex buffer)
  updateJellyPhysics returns normally and changes positions and velocities only; for
  every component \<open>k\<close> of every vertex the new velocity is the old one plus
  \<open>(rest - position) * 15 * delta\<close>, times 0.85, clamped to [-2, 2], and the new
  position is the old one plus the new velocity times delta. From
  \<open>positions = restPositions\<close> and zero velocities any number of steps leaves the
  state unchanged.
\<close>

theorem updateJellyPhysics_step:
  assumes "reachable geom s" and "isJelly (currentMaterial s)"
    and "velocities s = Some v" and "restPositions s = Some r"
  shows "\<exists>p' v'. updateJellyPhysics delta s = (Return (), s\<lparr>positions := p', velocities := Some v'\<rparr>) \<and>
           length p' = length (positions s) \<and> length v' = length v \<and>
           length v = length (positions s) \<and> length r = length (positions s) \<and>
           (\<forall>k < length (positions s).
              v' ! k = max (- 2.0) (min 2.0 ((v ! k + (r ! k - positions s ! k) * 15.0 * delta) * 0.85)) \<and>
              p' ! k = positions s ! k + v' ! k * delta) \<and>
           (positions s = r \<and> (\<forall>k < length v. v ! k = 0) \<longrightarrow>
              (\<forall>n. ((\<lambda>t. snd (updateJellyPhysics delta t)) ^^ n) s = s))"
proof -
  let ?p = "positions s"
  let ?n = "count ?p"
  let ?pv = "fold (jelly_vertex delta r) [0..<?n] (?p, v)"
  have lv: "length v = length ?p" and lr: "length r = length ?p"
    using reachable_parallel[OF assms(1,3)] assms(4) by simp_all
  have "length ?p mod 3 = 0" using assms(1) by (rule reachable_triples)
  then have n3p: "?n * 3 = length ?p" unfolding count_def by presburger
  have n3: "?n * 3 \<le> length v" and np: "?n * 3 \<le> length ?p"
    using n3p lv by simp_all
  have run: "updateJellyPhysics delta s = (Return (), s\<lparr>positions := fst ?pv, velocities := Some (snd ?pv)\<rparr>)"
    using assms(2-4) by (rule updateJellyPhysics_elastic)
  have len: "length (fst ?pv) = length ?p" "length (snd ?pv) = length v"
    using jelly_fold_length[of delta r "[0..<?n]" "(?p, v)"] by simp_all
  have comp: "snd ?pv ! k = max (- 2.0) (min 2.0 ((v ! k + (r ! k - ?p ! k) * 15.0 * delta) * 0.85)) \<and>
              fst ?pv ! k = ?p ! k + snd ?pv ! k * delta" if "k < length ?p" for k
    using jelly_fold_both_nth[OF n3 np, of k delta r] that lv n3p
    by (simp add: step_velocity_def step_position_def)
  have fixed: "((\<lambda>t. snd (updateJellyPhysics delta t)) ^^ n) s = s"
    if "?p = r" "\<forall>k < length v. v ! k = 0" for n
  proof (rule funpow_fixed)
    have "updateJellyPhysics delta s = (Return (), s)"
      using assms(2,3) _ n3 that(2)
      by (rule updateJellyPhysics_at_rest) (simp add: assms(4) that(1))
    then show "snd (updateJellyPhysics delta s) = s" by simp
  qed
  show ?thesis
    using run len lv lr comp fixed by blast
qed

theorem updateJellyPhysics_step_witness:
  "the (velocities (snd (updateJellyPhysics (1 / 10) jelly_sculpted))) ! 0 = 0.425 \<and>
   positions (snd (updateJellyPhysics (1 / 10) jelly_sculpted)) ! 0 = 1.0925 \<and>
   ((\<lambda>t. snd (updateJellyPhysics (1 / 10) t)) ^^ 5) jelly_rest = jelly_rest"
proof -
  have j: "isJelly (currentMaterial jelly_sculpted)"
    and v: "velocities jelly_sculpted = Some [0.5, 0, 0]"
    and r: "restPositions jelly_sculpted = Some [1.05, 0, 0]"
    by (simp_all add: jelly_sculpted_eq)
  obtain p' v' where
    run: "updateJellyPhysics (1 / 10) jelly_sculpted =
            (Return (), jelly_sculpted\<lparr>positions := p', velocities := Some v'\<rparr>)"
    and comp: "\<forall>k < length (positions jelly_sculpted).
              v' ! k = max (- 2.0) (min 2.0 (([0.5, 0, 0] ! k +
                  ([1.05, 0, 0] ! k - positions jelly_sculpted ! k) * 15.0 * (1 / 10)) * 0.85)) \<and>
              p' ! k = positions jelly_sculpted ! k + v' ! k * (1 / 10)"
    using updateJellyPhysics_step[OF reachable_jelly_sculpted j v r, of "1 / 10"] by blast
  have "0 < length (positions jelly_sculpted)"
    by (simp add: jelly_sculpted_eq)
  with comp have "v' ! 0 = 0.425 \<and> p' ! 0 = 1.0925"
    by (simp add: jelly_sculpted_eq)
  then have first: "the (velocities (snd (updateJellyPhysics (1 / 10) jelly_sculpted))) ! 0 = 0.425 \<and>
      positions (snd (updateJellyPhysics (1 / 10) jelly_sculpted)) ! 0 = 1.0925"
    by (simp add: run)
  have j0: "isJelly (currentMaterial jelly_rest)"
    and v0: "velocities jelly_rest = Some [0, 0, 0]"
    and r0: "restPositions jelly_rest = Some [1, 0, 0]"
    by (simp_all add: jelly_rest_eq)
  have "positions jelly_rest = [1, 0, 0] \<and> (\<forall>k < length [0, 0, 0 :: real]. [0, 0, 0 :: real] ! k = 0)"
    by (simp add: jelly_rest_eq nth_Cons split: nat.splits)
  then have "((\<lambda>t. snd (updateJellyPhysics (1 / 10) t)) ^^ 5) jelly_rest = jelly_rest"
    using updateJellyPhysics_step[OF reachable_jelly_rest j0 v0 r0, of "1 / 10"] by blast
  with first show ?thesis by simp
qed

section \<open>Deformation engine: angles, radii and the loop\<close>

lemma atan2_bounds: "- pi < atan2 y x \<and> atan2 y x \<le> pi"
proof -
  have b: "- (pi / 2) < arctan (y / x)" "arctan (y / x) < pi / 2"
    by (rule arctan_lbound, rule arctan_ubound)
  have neg: "x < 0 \<Longrightarrow> 0 \<le> y \<Longrightarrow> arctan (y / x) \<le> 0"
    by (simp add: divide_nonneg_neg arctan_le_zero_iff)
  have pos: "x < 0 \<Longrightarrow> y < 0 \<Longrightarrow> 0 < arctan (y / x)"
    by (simp add: divide_neg_neg arctan_less_zero_iff zero_less_arctan_iff)
  show ?thesis
    using b neg pos pi_gt_zero by (auto simp: atan2_def)
qed

lemma cos_neg_upper:
  assumes "pi / 2 < a" "a \<le> pi"
  shows "cos a < 0"
proof -
  have "cos a < cos (pi / 2)"
    using assms pi_gt_zero by (intro cos_monotone_0_pi) simp_all
  then show ?thesis by simp
qed

lemma cos_neg_lower:
  assumes "- pi \<le> a" "a < - (pi / 2)"
  shows "cos a < 0"
  using cos_neg_upper[of "- a"] assms by simp

lemma sin_neg_lower:
  assumes "- pi < a" "a < 0"
  shows "sin a < 0"
  using sin_gt_zero[of "- a"] assms by simp

lemma tan_ratio: "r \<noteq> 0 \<Longrightarrow> (sin a * r) / (cos a * r) = tan a"
  by (simp add: tan_def)

lemma atan2_polar:
  assumes "- pi < a" "a \<le> pi" "0 < r"
  shows "atan2 (sin a * r) (cos a * r) = a"
proof -
  have r: "r \<noteq> 0" using assms(3) by simp
  consider (right) "- (pi / 2) < a" "a < pi / 2"
    | (top) "a = pi / 2" | (bottom) "a = - (pi / 2)"
    | (upper) "pi / 2 < a" | (lower) "a < - (pi / 2)"
    by linarith
  then show ?thesis
  proof cases
    case right
    then have "0 < cos a" by (rule cos_gt_zero_pi)
    then have "0 < cos a * r" using assms(3) by simp
    then show ?thesis
      using right by (simp add: atan2_def tan_ratio[OF r] arctan_tan)
  next
    case top
    have "cos a = 0" "sin a = 1" unfolding top by simp_all
    then have "atan2 (sin a * r) (cos a * r) = pi / 2"
      using assms(3) by (simp add: atan2_def)
    then show ?thesis unfolding top .
  next
    case bottom
    have "cos a = 0" "sin a = - 1" unfolding bottom by simp_all
    then have "atan2 (sin a * r) (cos a * r) = - (pi / 2)"
      using assms(3) by (simp add: atan2_def)
    then show ?thesis unfolding bottom .
  next
    case upper
    then have c: "cos a < 0" using assms(2) by (rule cos_neg_upper)
    then have x: "cos a * r < 0" using assms(3) by (simp add: mult_neg_pos)
    have "0 \<le> sin a" using upper assms(2) pi_gt_zero by (intro sin_ge_zero) simp_all
    then have y: "0 \<le> sin a * r" using assms(3) by simp
    have "tan a = tan (a - pi)" using tan_periodic_pi[of "a - pi"] by simp
    moreover have "arctan (tan (a - pi)) = a - pi"
      using upper assms(2) by (intro arctan_tan) simp_all
    ultimately have "arctan (tan a) = a - pi" by simp
    then show ?thesis
      using x y by (simp add: atan2_def tan_ratio[OF r])
  next
    case lower
    then have c: "cos a < 0" using assms(1) by (intro cos_neg_lower) simp_all
    then have x: "cos a * r < 0" using assms(3) by (simp add: mult_neg_pos)
    have "sin a < 0" using lower assms(1) pi_gt_zero by (intro sin_neg_lower) simp_all
    then have y: "sin a * r < 0" using assms(3) by (simp add: mult_neg_pos)
    have "tan a = tan (a + pi)" by simp
    moreover have "arctan (tan (a + pi)) = a + pi"
      using lower assms(1) by (intro arctan_tan) simp_all
    ultimately have "arctan (tan a) = a + pi" by simp
    then show ?thesis
      using x y by (simp add: atan2_def tan_ratio[OF r])
  qed
qed

lemma polar_radius: "sqrt ((cos a * r) * (cos a * r) + (sin a * r) * (sin a * r)) = \<bar>r\<bar>"
proof -
  have "(cos a * r) * (cos a * r) + (sin a * r) * (sin a * r) = (r * r) * (cos a * cos a + sin a * sin a)"
    by (simp only: algebra_simps)
  also have "\<dots> = r * r"
    by (simp only: sin_cos_squared_add3 mult_1_right)
  finally show ?thesis by simp
qed

lemma vertex_index:
  "(n * 3) div 3 = n" "(n * 3 + 1) div 3 = n" "(n * 3 + 2) div 3 = n"
  "(n * 3) mod 3 = 0" "(n * 3 + 1) mod 3 = 1" "(n * 3 + 2) mod 3 = 2"
  for n :: nat
  by presburger+

lemma sculpt_vertex_positions:
  "positions (sculpt_vertex cfg tr ty i s) =
     (let p = positions s; x = getX p i; y = getY p i; z = getZ p i
      in if \<bar>y - ty\<bar> < sculptRadius cfg then
           (p[i * 3 := cos (atan2 z x) * new_radius cfg tr ty x y z])
              [i * 3 + 2 := sin (atan2 z x) * new_radius cfg tr ty x y z]
         else p)"
  by (simp add: sculpt_vertex_def Let_def setX_def setZ_def getX_def getY_def getZ_def
        new_radius_def split: option.splits)

lemma sculpt_fold_length:
  "length (positions (fold (sculpt_vertex cfg tr ty) xs s)) = length (positions s)"
  by (induction xs arbitrary: s) (simp_all add: sculpt_vertex_positions Let_def)

lemma sculpt_fold_nth:
  assumes "n * 3 \<le> length (positions s)" and "k < length (positions s)"
  shows "positions (fold (sculpt_vertex cfg tr ty) [0..<n] s) ! k =
           (if k < n * 3 then sculpt_component cfg tr ty (positions s) k else positions s ! k)"
  using assms
proof (induction n arbitrary: k)
  case 0
  show ?case by simp
next
  case (Suc n)
  let ?p = "positions s"
  let ?s = "fold (sculpt_vertex cfg tr ty) [0..<n] s"
  let ?q = "positions ?s"
  have n3: "n * 3 \<le> length ?p" "n * 3 + 2 < length ?p" using Suc.prems(1) by simp_all
  have IH: "\<And>j. j < length ?p \<Longrightarrow>
      ?q ! j = (if j < n * 3 then sculpt_component cfg tr ty ?p j else ?p ! j)"
    using Suc.IH[OF n3(1)] by simp
  have len: "length ?q = length ?p" by (rule sculpt_fold_length)
  have raw: "?q ! (n * 3) = ?p ! (n * 3)" "?q ! (n * 3 + 1) = ?p ! (n * 3 + 1)"
    "?q ! (n * 3 + 2) = ?p ! (n * 3 + 2)"
    using IH[of "n * 3"] IH[of "n * 3 + 1"] IH[of "n * 3 + 2"] n3 by simp_all
  then have same: "getX ?q n = getX ?p n" "getY ?q n = getY ?p n" "getZ ?q n = getZ ?p n"
    by (simp_all add: getX_def getY_def getZ_def)
  have step: "fold (sculpt_vertex cfg tr ty) [0..<Suc n] s = sculpt_vertex cfg tr ty n ?s"
    by simp
  note d = vertex_index[of n]
  consider (before) "k < n * 3" | (x) "k = n * 3" | (y) "k = n * 3 + 1" | (z) "k = n * 3 + 2"
    | (after) "Suc n * 3 \<le> k"
    by force
  then show ?case
  proof cases
    case before
    then show ?thesis
      unfolding step using IH[OF Suc.prems(2)] Suc.prems(2) len
      by (simp add: sculpt_vertex_positions Let_def)
  next
    case x
    then show ?thesis
      unfolding step using same raw n3 len d
      by (simp add: sculpt_vertex_positions Let_def sculpt_component_def)
  next
    case y
    then show ?thesis
      unfolding step using same raw n3 len d
      by (simp add: sculpt_vertex_positions Let_def sculpt_component_def)
  next
    case z
    then show ?thesis
      unfolding step using same raw n3 len d
      by (simp add: sculpt_vertex_positions Let_def sculpt_component_def)
  next
    case after
    then show ?thesis
      unfolding step using IH[OF Suc.prems(2)] Suc.prems(2) len
      by (simp add: sculpt_vertex_positions Let_def)
  qed
qed

lemma sculpt_positions_nth:
  assumes "k < count (positions s) * 3"
  shows "positions (sculpt cfg pt s) ! k =
           sculpt_component cfg (clampRadius cfg pt) (vy pt) (positions s) k"
proof -
  have "count (positions s) * 3 \<le> length (positions s)" by (simp add: count_def)
  moreover from this assms have "k < length (positions s)" by simp
  ultimately show ?thesis
    using assms by (simp add: sculpt_def Let_def clampRadius_def sculpt_fold_nth)
qed

lemma sculpt_vertex_result:
  assumes "i < count (positions s)"
  shows "getX (positions (sculpt cfg pt s)) i = sculpt_component cfg (clampRadius cfg pt) (vy pt) (positions s) (i * 3)"
    and "getY (positions (sculpt cfg pt s)) i = getY (positions s) i"
    and "getZ (positions (sculpt cfg pt s)) i = sculpt_component cfg (clampRadius cfg pt) (vy pt) (positions s) (i * 3 + 2)"
proof -
  have k: "i * 3 < count (positions s) * 3" "i * 3 + 1 < count (positions s) * 3"
    "i * 3 + 2 < count (positions s) * 3"
    using assms by simp_all
  show "getX (positions (sculpt cfg pt s)) i = sculpt_component cfg (clampRadius cfg pt) (vy pt) (positions s) (i * 3)"
    by (simp add: getX_def sculpt_positions_nth[OF k(1)])
  show "getY (positions (sculpt cfg pt s)) i = getY (positions s) i"
    unfolding getY_def using sculpt_positions_nth[OF k(2), of cfg pt] vertex_index[of i]
    by (simp add: sculpt_component_def Let_def)
  show "getZ (positions (sculpt cfg pt s)) i = sculpt_component cfg (clampRadius cfg pt) (vy pt) (positions s) (i * 3 + 2)"
    unfolding getZ_def using sculpt_positions_nth[OF k(3), of cfg pt] by simp
qed

lemma blend_between:
  fixes a b w :: real
  assumes "0 \<le> w" "w \<le> 1"
  shows "min a b \<le> a + (b - a) * w \<and> a + (b - a) * w \<le> max a b"
proof (cases "a \<le> b")
  case True
  then have "0 \<le> (b - a) * w" "(b - a) * w \<le> b - a"
    using assms by (simp_all add: mult_left_le)
  then show ?thesis using True by linarith
next
  case False
  then have "0 \<le> (a - b) * w" "(a - b) * w \<le> a - b"
    using assms by (simp_all add: mult_left_le)
  then have "b - a \<le> (b - a) * w" "(b - a) * w \<le> 0"
    by (simp_all only: algebra_simps)
  then show ?thesis using False by linarith
qed

lemma falloff_bounds: "0 < exp (- (d * d) / 0.1 :: real) \<and> exp (- (d * d) / 0.1 :: real) \<le> 1"
  by simp

lemma weight_bounds:
  assumes "0 \<le> sculptStrength cfg" "sculptStrength cfg \<le> 1"
  shows "0 \<le> exp (- (d * d) / 0.1) * sculptStrength cfg \<and> exp (- (d * d) / 0.1) * sculptStrength cfg \<le> 1"
proof -
  have f: "0 < exp (- (d * d) / 0.1 :: real)" "exp (- (d * d) / 0.1 :: real) \<le> 1"
    using falloff_bounds[of d] by simp_all
  have "exp (- (d * d) / 0.1) * sculptStrength cfg \<le> 1 * 1"
    using f assms by (intro mult_mono) simp_all
  then show ?thesis using f assms by simp
qed

lemma new_radius_blend:
  "new_radius cfg tr ty x y z =
     sqrt (x * x + z * z) + (tr - sqrt (x * x + z * z)) * (exp (- (\<bar>y - ty\<bar> * \<bar>y - ty\<bar>) / 0.1) * sculptStrength cfg)"
  by (simp add: new_radius_def Let_def)

lemma new_radius_between:
  assumes "0 \<le> sculptStrength cfg" "sculptStrength cfg \<le> 1"
  shows "min (sqrt (x * x + z * z)) tr \<le> new_radius cfg tr ty x y z \<and>
         new_radius cfg tr ty x y z \<le> max (sqrt (x * x + z * z)) tr"
  unfolding new_radius_blend
  by (rule blend_between) (simp_all only: weight_bounds[OF assms])

lemma new_radius_nonneg:
  assumes "0 \<le> sculptStrength cfg" "sculptStrength cfg \<le> 1" "0 \<le> tr"
  shows "0 \<le> new_radius cfg tr ty x y z"
proof -
  have "0 \<le> min (sqrt (x * x + z * z)) tr" using assms(3) by simp
  then show ?thesis using new_radius_between[OF assms(1,2), of x z tr ty y] by linarith
qed

lemma new_radius_pos:
  assumes "slider_config cfg" "0 < tr"
  shows "0 < new_radius cfg tr ty x y z"
proof -
  let ?c = "sqrt (x * x + z * z)"
  let ?w = "exp (- (\<bar>y - ty\<bar> * \<bar>y - ty\<bar>) / 0.1) * sculptStrength cfg"
  have s: "0 < sculptStrength cfg" "sculptStrength cfg \<le> 1"
    using assms(1) by (simp_all add: slider_config_def)
  have w: "0 < ?w" using s by simp
  have w1: "?w \<le> 1" using weight_bounds[of cfg "\<bar>y - ty\<bar>"] s by simp
  have "new_radius cfg tr ty x y z = ?c * (1 - ?w) + tr * ?w"
    unfolding new_radius_blend by (simp only: algebra_simps)
  moreover have "0 \<le> ?c * (1 - ?w)" using w1 by (intro mult_nonneg_nonneg) simp_all
  moreover have "0 < tr * ?w" using assms(2) w by (rule mult_pos_pos)
  ultimately show ?thesis by linarith
qed

lemma clampRadius_bounds:
  assumes "minRadius cfg = 0.2" "maxRadius cfg = 3.5"
  shows "clampRadius cfg pt = max 0.2 (min 3.5 \<bar>vx pt\<bar>)" "0.2 \<le> clampRadius cfg pt" "clampRadius cfg pt \<le> 3.5"
  using assms by (simp_all add: clampRadius_def)

lemma sculpt_count: "count (positions (sculpt cfg pt s)) = count (positions s)"
  by (simp add: sculpt_def Let_def count_def sculpt_fold_length)

lemma sculpt_within:
  assumes "i < count (positions s)" and "\<bar>getY (positions s) i - vy pt\<bar> < sculptRadius cfg"
  shows "getX (positions (sculpt cfg pt s)) i =
           cos (angle_at (positions s) i) *
             new_radius cfg (clampRadius cfg pt) (vy pt) (getX (positions s) i) (getY (positions s) i) (getZ (positions s) i)"
    and "getZ (positions (sculpt cfg pt s)) i =
           sin (angle_at (positions s) i) *
             new_radius cfg (clampRadius cfg pt) (vy pt) (getX (positions s) i) (getY (positions s) i) (getZ (positions s) i)"
    and "radius_at (positions (sculpt cfg pt s)) i =
           \<bar>new_radius cfg (clampRadius cfg pt) (vy pt) (getX (positions s) i) (getY (positions s) i) (getZ (positions s) i)\<bar>"
proof -
  show x: "getX (positions (sculpt cfg pt s)) i =
           cos (angle_at (positions s) i) *
             new_radius cfg (clampRadius cfg pt) (vy pt) (getX (positions s) i) (getY (positions s) i) (getZ (positions s) i)"
    using assms(2) vertex_index[of i]
    by (simp add: sculpt_vertex_result(1)[OF assms(1)] sculpt_component_def Let_def angle_at_def)
  show z: "getZ (positions (sculpt cfg pt s)) i =
           sin (angle_at (positions s) i) *
             new_radius cfg (clampRadius cfg pt) (vy pt) (getX (positions s) i) (getY (positions s) i) (getZ (positions s) i)"
    using assms(2) vertex_index[of i]
    by (simp add: sculpt_vertex_result(3)[OF assms(1)] sculpt_component_def Let_def angle_at_def)
  show "radius_at (positions (sculpt cfg pt s)) i =
           \<bar>new_radius cfg (clampRadius cfg pt) (vy pt) (getX (positions s) i) (getY (positions s) i) (getZ (positions s) i)\<bar>"
    unfolding radius_at_def x z by (rule polar_radius)
qed

lemma sculpt_outside:
  assumes "i < count (positions s)" and "sculptRadius cfg \<le> \<bar>getY (positions s) i - vy pt\<bar>"
  shows "getX (positions (sculpt cfg pt s)) i = getX (positions s) i"
    and "getZ (positions (sculpt cfg pt s)) i = getZ (positions s) i"
proof -
  have out: "\<not> \<bar>getY (positions s) i - vy pt\<bar> < sculptRadius cfg"
    using assms(2) by simp
  have "sculpt_component cfg (clampRadius cfg pt) (vy pt) (positions s) (i * 3) = positions s ! (i * 3)"
    using out vertex_index[of i] by (simp add: sculpt_component_def Let_def)
  then show "getX (positions (sculpt cfg pt s)) i = getX (positions s) i"
    unfolding sculpt_vertex_result(1)[OF assms(1)] by (simp add: getX_def)
  have "sculpt_component cfg (clampRadius cfg pt) (vy pt) (positions s) (i * 3 + 2) = positions s ! (i * 3 + 2)"
    using out vertex_index[of i] by (simp add: sculpt_component_def Let_def)
  then show "getZ (positions (sculpt cfg pt s)) i = getZ (positions s) i"
    unfolding sculpt_vertex_result(3)[OF assms(1)] by (simp add: getZ_def)
qed

lemma between_closer:
  fixes r r' T :: real
  assumes "min r T \<le> r'" "r' \<le> max r T"
  shows "\<bar>T - r'\<bar> \<le> \<bar>T - r\<bar>"
  using assms by linarith

lemma between_stays:
  fixes r r' T lo hi :: real
  assumes "min r T \<le> r'" "r' \<le> max r T" "lo \<le> T" "T \<le> hi" "lo \<le> r" "r \<le> hi"
  shows "lo \<le> r' \<and> r' \<le> hi"
  using assms by linarith

lemma sculpt_radius_step:
  assumes "slider_config cfg" and "i < count (positions s)"
    and "\<bar>getY (positions s) i - vy pt\<bar> < sculptRadius cfg"
  shows "min (radius_at (positions s) i) (clampRadius cfg pt) \<le> radius_at (positions (sculpt cfg pt s)) i \<and>
         radius_at (positions (sculpt cfg pt s)) i \<le> max (radius_at (positions s) i) (clampRadius cfg pt)"
proof -
  let ?nr = "new_radius cfg (clampRadius cfg pt) (vy pt) (getX (positions s) i)
      (getY (positions s) i) (getZ (positions s) i)"
  have mm: "minRadius cfg = 0.2" "maxRadius cfg = 3.5"
    and st: "0 \<le> sculptStrength cfg" "sculptStrength cfg \<le> 1"
    using assms(1) by (simp_all add: slider_config_def)
  have "0 \<le> clampRadius cfg pt" using clampRadius_bounds(2)[OF mm, of pt] by simp
  with st have "0 \<le> ?nr" by (rule new_radius_nonneg)
  then have "radius_at (positions (sculpt cfg pt s)) i = ?nr"
    using sculpt_within(3)[OF assms(2,3)] by simp
  then show ?thesis
    using new_radius_between[OF st, of "getX (positions s) i" "getZ (positions s) i"
        "clampRadius cfg pt" "vy pt" "getY (positions s) i"]
    by (simp add: radius_at_def)
qed

lemma sculpt_repeat_frame:
  assumes "i < count (positions s)"
  shows "i < count (positions ((sculpt cfg pt ^^ n) s)) \<and>
         getY (positions ((sculpt cfg pt ^^ n) s)) i = getY (positions s) i"
proof (induction n)
  case 0
  show ?case using assms by simp
next
  case (Suc n)
  then show ?case
    by (simp add: sculpt_count sculpt_vertex_result(2))
qed

lemma sculpt_radius_exact:
  assumes "slider_config cfg" and "i < count (positions s)"
    and "\<bar>getY (positions s) i - vy pt\<bar> < sculptRadius cfg"
  shows "clampRadius cfg pt - radius_at (positions (sculpt cfg pt s)) i =
           (1 - exp (- (\<bar>getY (positions s) i - vy pt\<bar> * \<bar>getY (positions s) i - vy pt\<bar>) / 0.1) *
                  sculptStrength cfg) *
           (clampRadius cfg pt - radius_at (positions s) i)"
proof -
  let ?nr = "new_radius cfg (clampRadius cfg pt) (vy pt) (getX (positions s) i)
      (getY (positions s) i) (getZ (positions s) i)"
  have mm: "minRadius cfg = 0.2" "maxRadius cfg = 3.5"
    and st: "0 \<le> sculptStrength cfg" "sculptStrength cfg \<le> 1"
    using assms(1) by (simp_all add: slider_config_def)
  have "0 \<le> clampRadius cfg pt" using clampRadius_bounds(2)[OF mm, of pt] by simp
  with st have "0 \<le> ?nr" by (rule new_radius_nonneg)
  then have "radius_at (positions (sculpt cfg pt s)) i = ?nr"
    using sculpt_within(3)[OF assms(2,3)] by simp
  then show ?thesis
    unfolding new_radius_blend radius_at_def by (simp only: algebra_simps)
qed

lemma weight_strict:
  assumes "slider_config cfg"
  shows "0 < exp (- (d * d) / 0.1) * sculptStrength cfg \<and>
         exp (- (d * d) / 0.1) * sculptStrength cfg \<le> 1 / 2"
proof -
  have s: "0 < sculptStrength cfg" "sculptStrength cfg \<le> 1 / 2"
    using assms by (simp_all add: slider_config_def)
  have f: "0 < exp (- (d * d) / 0.1 :: real)" "exp (- (d * d) / 0.1 :: real) \<le> 1"
    using falloff_bounds[of d] by simp_all
  have "exp (- (d * d) / 0.1) * sculptStrength cfg \<le> 1 * (1 / 2)"
    using f s by (intro mult_mono) simp_all
  moreover have "0 < exp (- (d * d) / 0.1) * sculptStrength cfg"
    using f(1) s(1) by (rule mult_pos_pos)
  ultimately show ?thesis by simp
qed

lemma contraction_strict:
  fixes w d d' :: real
  assumes "0 < w" "w \<le> 1 / 2" "d' = (1 - w) * d" "d \<noteq> 0"
  shows "\<bar>d'\<bar> < \<bar>d\<bar> \<and> d' \<noteq> d \<and> (0 < d \<longrightarrow> 0 < d') \<and> (d < 0 \<longrightarrow> d' < 0)"
proof -
  have w: "0 < 1 - w" "1 - w < 1" using assms(1,2) by simp_all
  have a: "\<bar>d'\<bar> = (1 - w) * \<bar>d\<bar>"
    unfolding assms(3) using w(1) by (simp add: abs_mult)
  have "0 < \<bar>d\<bar>" using assms(4) by simp
  then have "(1 - w) * \<bar>d\<bar> < 1 * \<bar>d\<bar>"
    using w(2) by (intro mult_strict_right_mono)
  then have lt: "\<bar>d'\<bar> < \<bar>d\<bar>" using a by simp
  then have ne: "d' \<noteq> d" by auto
  have p: "0 < d \<Longrightarrow> 0 < d'" unfolding assms(3) using w(1) by (rule mult_pos_pos)
  have n: "d < 0 \<Longrightarrow> d' < 0" unfolding assms(3) using w(1) by (rule mult_pos_neg)
  show ?thesis using lt ne p n by blast
qed

section \<open>Deformation engine: the claims\<close>

text \<open>
  Claim C1. For every call of sculpt and every vertex \<open>i\<close> of the vertex buffer,
  with \<open>dy = |y - target.y|\<close>: the buffer keeps its length and the vertex its y; if
  \<open>dy\<close> is at least the influence radius the vertex is unchanged; otherwise, with
  \<open>targetRadius = clamp(|target.x|, 0.2, 3.5)\<close>, \<open>factor = exp(-dy\<^sup>2 / 0.1)\<close>,
  \<open>currentRadius = sqrt(x\<^sup>2 + z\<^sup>2)\<close> and
  \<open>newRadius = currentRadius + (targetRadius - currentRadius) * factor * strength\<close>,
  the new x is \<open>cos(atan2(z, x)) * newRadius\<close> and the new z is
  \<open>sin(atan2(z, x)) * newRadius\<close>; the radius of the new position is
  \<open>|newRadius|\<close>, which is \<open>newRadius\<close> for a strength between 0 and 1. The target
  is clamped, and sculpt is total.
\<close>

theorem sculpt_vertex_update:
  assumes "i < count (positions s)" and "minRadius cfg = 0.2" and "maxRadius cfg = 3.5"
  shows "let p = positions s; p' = positions (sculpt cfg pt s);
             x = getX p i; y = getY p i; z = getZ p i;
             dy = \<bar>y - vy pt\<bar>;
             targetRadius = max 0.2 (min 3.5 \<bar>vx pt\<bar>);
             factor = exp (- (dy * dy) / 0.1);
             currentRadius = sqrt (x * x + z * z);
             newRadius = currentRadius + (targetRadius - currentRadius) * factor * sculptStrength cfg
         in length p' = length p \<and> getY p' i = y \<and>
            (if sculptRadius cfg \<le> dy then getX p' i = x \<and> getZ p' i = z
             else getX p' i = cos (atan2 z x) * newRadius \<and>
                  getZ p' i = sin (atan2 z x) * newRadius \<and>
                  radius_at p' i = \<bar>newRadius\<bar> \<and>
                  (0 \<le> sculptStrength cfg \<and> sculptStrength cfg \<le> 1 \<longrightarrow> radius_at p' i = newRadius))"
proof -
  let ?p = "positions s"
  let ?p' = "positions (sculpt cfg pt s)"
  let ?x = "getX ?p i" and ?y = "getY ?p i" and ?z = "getZ ?p i"
  let ?T = "max 0.2 (min 3.5 \<bar>vx pt\<bar>)"
  let ?nr = "new_radius cfg ?T (vy pt) ?x ?y ?z"
  have T: "clampRadius cfg pt = ?T" "0 \<le> ?T"
    using clampRadius_bounds[OF assms(2,3), of pt] by simp_all
  have len: "length ?p' = length ?p"
    by (simp add: sculpt_def Let_def sculpt_fold_length)
  have y: "getY ?p' i = ?y"
    using assms(1) by (rule sculpt_vertex_result(2))
  have out: "getX ?p' i = ?x \<and> getZ ?p' i = ?z" if "sculptRadius cfg \<le> \<bar>?y - vy pt\<bar>"
    using sculpt_outside[OF assms(1) that] by simp
  let ?E = "sqrt (?x * ?x + ?z * ?z) +
      (?T - sqrt (?x * ?x + ?z * ?z)) * exp (- (\<bar>?y - vy pt\<bar> * \<bar>?y - vy pt\<bar>) / 0.1) *
      sculptStrength cfg"
  have nr: "?nr = ?E" by (simp add: new_radius_def Let_def)
  have "in": "getX ?p' i = cos (atan2 ?z ?x) * ?E \<and> getZ ?p' i = sin (atan2 ?z ?x) * ?E \<and>
      radius_at ?p' i = \<bar>?E\<bar> \<and>
      (0 \<le> sculptStrength cfg \<and> sculptStrength cfg \<le> 1 \<longrightarrow> radius_at ?p' i = ?E)"
    if w: "\<not> sculptRadius cfg \<le> \<bar>?y - vy pt\<bar>"
  proof -
    have w': "\<bar>?y - vy pt\<bar> < sculptRadius cfg" using w by simp
    have gx: "getX ?p' i = cos (atan2 ?z ?x) * ?nr"
      using sculpt_within(1)[OF assms(1) w'] unfolding T(1) angle_at_def .
    have gz: "getZ ?p' i = sin (atan2 ?z ?x) * ?nr"
      using sculpt_within(2)[OF assms(1) w'] unfolding T(1) angle_at_def .
    have gr: "radius_at ?p' i = \<bar>?nr\<bar>"
      using sculpt_within(3)[OF assms(1) w'] unfolding T(1) .
    have gn: "0 \<le> sculptStrength cfg \<and> sculptStrength cfg \<le> 1 \<longrightarrow> radius_at ?p' i = ?nr"
    proof
      assume "0 \<le> sculptStrength cfg \<and> sculptStrength cfg \<le> 1"
      then have "0 \<le> ?nr" using T(2) by (intro new_radius_nonneg) simp_all
      then show "radius_at ?p' i = ?nr" unfolding gr by (rule abs_of_nonneg)
    qed
    have "getX ?p' i = cos (atan2 ?z ?x) * ?nr \<and> getZ ?p' i = sin (atan2 ?z ?x) * ?nr \<and>
      radius_at ?p' i = \<bar>?nr\<bar> \<and>
      (0 \<le> sculptStrength cfg \<and> sculptStrength cfg \<le> 1 \<longrightarrow> radius_at ?p' i = ?nr)"
      using gx gz gr gn by (intro conjI)
    then show ?thesis unfolding nr .
  qed
  show ?thesis
  proof (cases "sculptRadius cfg \<le> \<bar>?y - vy pt\<bar>")
    case True
    then show ?thesis
      unfolding Let_def if_P[OF True] using len y out[OF True] by blast
  next
    case False
    then show ?thesis
      unfolding Let_def if_not_P[OF False] using len y "in"[OF False] by blast
  qed
qed

theorem sculpt_vertex_update_witness:
  "getX (positions (sculpt CONFIG (Vector3 2 0 0) jelly_rest)) 0 = 1.05 \<and>
   getY (positions (sculpt CONFIG (Vector3 2 0 0) jelly_rest)) 0 = 0 \<and>
   getZ (positions (sculpt CONFIG (Vector3 2 0 0) jelly_rest)) 0 = 0 \<and>
   radius_at (positions (sculpt CONFIG (Vector3 2 0 0) jelly_rest)) 0 = 1.05 \<and>
   getX (positions (sculpt CONFIG (Vector3 9 0 0) stale_cube)) 0 = 1.125 \<and>
   getX (positions (sculpt CONFIG (Vector3 9 0 0) stale_cube)) 1 = 0 \<and>
   getZ (positions (sculpt CONFIG (Vector3 9 0 0) stale_cube)) 1 = 1"
proof -
  have a: "0 < count (positions jelly_rest)" and b: "1 < count (positions stale_cube)"
    and b0: "0 < count (positions stale_cube)"
    and c: "minRadius CONFIG = 0.2" "maxRadius CONFIG = 3.5"
    by (simp_all add: jelly_rest_eq stale_cube_eq count_def CONFIG_def)
  show ?thesis
    using sculpt_vertex_update[OF a c, of "Vector3 2 0 0"]
      sculpt_vertex_update[OF b c, of "Vector3 9 0 0"]
      sculpt_vertex_update[OF b0 c, of "Vector3 9 0 0"]
    by (simp add: jelly_rest_eq stale_cube_eq CONFIG_def getX_def getY_def getZ_def atan2_def
          Let_def)
qed

text \<open>
  Claim C2. With the tool parameters in the range of the sliders, a sculpt call leaves
  the angle \<open>atan2(z, x)\<close> of every vertex of the buffer as it was.
\<close>

theorem sculpt_keeps_angle:
  assumes "slider_config cfg" and "i < count (positions s)"
  shows "angle_at (positions (sculpt cfg pt s)) i = angle_at (positions s) i"
proof (cases "\<bar>getY (positions s) i - vy pt\<bar> < sculptRadius cfg")
  case False
  then have "sculptRadius cfg \<le> \<bar>getY (positions s) i - vy pt\<bar>" by simp
  then show ?thesis
    using sculpt_outside[OF assms(2)] by (simp add: angle_at_def)
next
  case True
  let ?a = "angle_at (positions s) i"
  let ?nr = "new_radius cfg (clampRadius cfg pt) (vy pt) (getX (positions s) i)
      (getY (positions s) i) (getZ (positions s) i)"
  have mm: "minRadius cfg = 0.2" "maxRadius cfg = 3.5"
    using assms(1) by (simp_all add: slider_config_def)
  have "0 < clampRadius cfg pt" using clampRadius_bounds(2)[OF mm, of pt] by simp
  with assms(1) have nr: "0 < ?nr" by (rule new_radius_pos)
  have a: "- pi < ?a" "?a \<le> pi"
    using atan2_bounds[of "getZ (positions s) i" "getX (positions s) i"] by (simp_all add: angle_at_def)
  have "angle_at (positions (sculpt cfg pt s)) i = atan2 (sin ?a * ?nr) (cos ?a * ?nr)"
    unfolding angle_at_def[of "positions (sculpt cfg pt s)"] sculpt_within(1,2)[OF assms(2) True] ..
  also have "\<dots> = ?a" using a nr by (rule atan2_polar)
  finally show ?thesis .
qed

theorem sculpt_keeps_angle_witness:
  "angle_at (positions (sculpt CONFIG (Vector3 2 2 0) stale_cube)) 1 = pi / 2"
proof -
  have "1 < count (positions stale_cube)"
    by (simp add: stale_cube_eq count_def)
  with slider_config_CONFIG
  have "angle_at (positions (sculpt CONFIG (Vector3 2 2 0) stale_cube)) 1 =
        angle_at (positions stale_cube) 1"
    by (rule sculpt_keeps_angle)
  then show ?thesis
    by (simp add: stale_cube_eq angle_at_def getX_def getZ_def atan2_def)
qed

text \<open>
  Claim C9. With the tool parameters in the range of the sliders, for a fixed target
  and a vertex within the influence cutoff, along any number of repeated sculpt calls,
  with \<open>T = clamp(|target.x|, 0.2, 3.5)\<close> and the weight
  \<open>w = exp(-dy\<^sup>2 / 0.1) * strength\<close>, which lies in (0, 1/2]: the radius after each
  call lies between the radius before it and \<open>T\<close>, and once the radius is in
  [0.2, 3.5] it stays there; each call multiplies the gap \<open>T - radius\<close> by exactly
  \<open>1 - w\<close>, so after \<open>n\<close> calls the gap is \<open>(1 - w)\<^sup>n\<close> times the first one;
  and whenever the radius is not yet \<open>T\<close>, the call moves it: it comes strictly
  closer to \<open>T\<close>, strictly between its old value and \<open>T\<close>.
\<close>

theorem sculpt_radius_monotone:
  assumes "slider_config cfg" and "i < count (positions s)"
    and "\<bar>getY (positions s) i - vy pt\<bar> < sculptRadius cfg"
  shows "let T = max 0.2 (min 3.5 \<bar>vx pt\<bar>);
             dy = \<bar>getY (positions s) i - vy pt\<bar>;
             w = exp (- (dy * dy) / 0.1) * sculptStrength cfg;
             r = (\<lambda>n. radius_at (positions ((sculpt cfg pt ^^ n) s)) i)
         in 0 < w \<and> w \<le> 1 / 2 \<and>
            (\<forall>n. min (r n) T \<le> r (Suc n) \<and> r (Suc n) \<le> max (r n) T \<and>
                 \<bar>T - r (Suc n)\<bar> \<le> \<bar>T - r n\<bar> \<and>
                 (\<forall>m. 0.2 \<le> r n \<and> r n \<le> 3.5 \<longrightarrow> 0.2 \<le> r (n + m) \<and> r (n + m) \<le> 3.5) \<and>
                 T - r (Suc n) = (1 - w) * (T - r n) \<and>
                 T - r n = (1 - w) ^ n * (T - r 0) \<and>
                 (r n \<noteq> T \<longrightarrow>
                    \<bar>T - r (Suc n)\<bar> < \<bar>T - r n\<bar> \<and> r (Suc n) \<noteq> r n \<and>
                    (r n < T \<longrightarrow> r n < r (Suc n) \<and> r (Suc n) < T) \<and>
                    (T < r n \<longrightarrow> T < r (Suc n) \<and> r (Suc n) < r n)))"
proof -
  let ?T = "max 0.2 (min 3.5 \<bar>vx pt\<bar>)"
  let ?dy = "\<bar>getY (positions s) i - vy pt\<bar>"
  let ?w = "exp (- (?dy * ?dy) / 0.1) * sculptStrength cfg"
  let ?r = "\<lambda>n. radius_at (positions ((sculpt cfg pt ^^ n) s)) i"
  have mm: "minRadius cfg = 0.2" "maxRadius cfg = 3.5"
    using assms(1) by (simp_all add: slider_config_def)
  have T: "clampRadius cfg pt = ?T" using clampRadius_bounds(1)[OF mm] .
  have w: "0 < ?w" "?w \<le> 1 / 2"
    using weight_strict[OF assms(1), of ?dy] by simp_all
  have f: "i < count (positions ((sculpt cfg pt ^^ n) s))"
    "getY (positions ((sculpt cfg pt ^^ n) s)) i = getY (positions s) i"
    "\<bar>getY (positions ((sculpt cfg pt ^^ n) s)) i - vy pt\<bar> < sculptRadius cfg" for n
    using sculpt_repeat_frame[OF assms(2), where cfg = cfg and pt = pt and n = n] assms(3)
    by simp_all
  have step: "min (?r n) ?T \<le> ?r (Suc n) \<and> ?r (Suc n) \<le> max (?r n) ?T" for n
    using sculpt_radius_step[OF assms(1) f(1,3)[of n]] by (simp add: T)
  have exact: "?T - ?r (Suc n) = (1 - ?w) * (?T - ?r n)" for n
    using sculpt_radius_exact[OF assms(1) f(1,3)[of n]] unfolding f(2) T by simp
  have closed: "?T - ?r n = (1 - ?w) ^ n * (?T - ?r 0)" for n
  proof (induction n)
    case 0
    show ?case by simp
  next
    case (Suc n)
    have "?T - ?r (Suc n) = (1 - ?w) * ((1 - ?w) ^ n * (?T - ?r 0))"
      using exact[of n] unfolding Suc .
    then show ?case by (simp only: power_Suc mult.assoc)
  qed
  have closer: "\<bar>?T - ?r (Suc n)\<bar> \<le> \<bar>?T - ?r n\<bar>" for n
    using step[of n] by (intro between_closer) simp_all
  have strict: "\<bar>?T - ?r (Suc n)\<bar> < \<bar>?T - ?r n\<bar> \<and> ?r (Suc n) \<noteq> ?r n \<and>
                (?r n < ?T \<longrightarrow> ?r n < ?r (Suc n) \<and> ?r (Suc n) < ?T) \<and>
                (?T < ?r n \<longrightarrow> ?T < ?r (Suc n) \<and> ?r (Suc n) < ?r n)"
    if ne: "?r n \<noteq> ?T" for n
  proof -
    define d where "d = ?T - ?r n"
    define d' where "d' = ?T - ?r (Suc n)"
    have d0: "d \<noteq> 0" using ne by (simp add: d_def)
    have e: "d' = (1 - ?w) * d" unfolding d_def d'_def by (rule exact)
    have c: "\<bar>d'\<bar> < \<bar>d\<bar> \<and> d' \<noteq> d \<and> (0 < d \<longrightarrow> 0 < d') \<and> (d < 0 \<longrightarrow> d' < 0)"
      using w e d0 by (rule contraction_strict)
    have r: "?r n = ?T - d" "?r (Suc n) = ?T - d'" by (simp_all add: d_def d'_def)
    show ?thesis
      unfolding r using c by (auto simp: abs_if split: if_splits)
  qed
  have stay: "0.2 \<le> ?r (n + m) \<and> ?r (n + m) \<le> 3.5" if "0.2 \<le> ?r n \<and> ?r n \<le> 3.5" for n m
  proof (induction m)
    case 0
    show ?case using that by simp
  next
    case (Suc m)
    have T2: "0.2 \<le> ?T" "?T \<le> 3.5" by simp_all
    have s1: "min (?r (n + m)) ?T \<le> ?r (Suc (n + m))" "?r (Suc (n + m)) \<le> max (?r (n + m)) ?T"
      using step[of "n + m"] by simp_all
    have "0.2 \<le> ?r (Suc (n + m)) \<and> ?r (Suc (n + m)) \<le> 3.5"
      using s1 T2 Suc[THEN conjunct1] Suc[THEN conjunct2] by (rule between_stays)
    then show ?case by (simp only: add_Suc_right)
  qed
  show ?thesis
    unfolding Let_def using w step closer stay exact closed strict by blast
qed

theorem sculpt_radius_monotone_witness:
  "radius_at (positions jelly_rest) 0 = 1 \<and>
   radius_at (positions (sculpt CONFIG (Vector3 2 0 0) jelly_rest)) 0 = 1.05 \<and>
   radius_at (positions ((sculpt CONFIG (Vector3 2 0 0) ^^ 2) jelly_rest)) 0 = 1.0975 \<and>
   1 / 5 \<le> radius_at (positions ((sculpt CONFIG (Vector3 2 0 0) ^^ 7) jelly_rest)) 0 \<and>
   radius_at (positions ((sculpt CONFIG (Vector3 2 0 0) ^^ 7) jelly_rest)) 0 \<le> 7 / 2"
proof -
  have a: "0 < count (positions jelly_rest)"
    and b: "\<bar>getY (positions jelly_rest) 0 - vy (Vector3 2 0 0)\<bar> < sculptRadius CONFIG"
    and r0: "radius_at (positions jelly_rest) 0 = 1"
    and y0: "getY (positions jelly_rest) 0 = 0"
    by (simp_all add: jelly_rest_eq count_def getX_def getY_def getZ_def radius_at_def CONFIG_def)
  let ?r = "\<lambda>n. radius_at (positions ((sculpt CONFIG (Vector3 2 0 0) ^^ n) jelly_rest)) 0"
  have all: "\<forall>n. (\<forall>m. 0.2 \<le> ?r n \<and> ?r n \<le> 3.5 \<longrightarrow> 0.2 \<le> ?r (n + m) \<and> ?r (n + m) \<le> 3.5) \<and>
      2 - ?r n = (1 - 1 / 20) ^ n * (2 - ?r 0)"
    using sculpt_radius_monotone[OF slider_config_CONFIG a b]
    by (simp add: Let_def y0 CONFIG_def)
  have c1: "2 - ?r 1 = (1 - 1 / 20) ^ 1 * (2 - ?r 0)"
    using all[THEN spec, of 1] by blast
  have c2: "2 - ?r 2 = (1 - 1 / 20) ^ 2 * (2 - ?r 0)"
    using all[THEN spec, of 2] by blast
  have r1: "?r 1 = 1.05" using c1 r0 by simp
  have r2: "?r 2 = 1.0975" using c2 r0 by (simp add: power2_eq_square)
  have "0.2 \<le> ?r 0 \<and> ?r 0 \<le> 3.5 \<longrightarrow> 0.2 \<le> ?r (0 + 7) \<and> ?r (0 + 7) \<le> 3.5"
    using all[THEN spec, of 0] by blast
  then have "0.2 \<le> ?r 7 \<and> ?r 7 \<le> 3.5"
    using r0 by simp
  with r0 r1 r2 show ?thesis by simp
qed

end
